theory Spec2Isabelle
  imports Main
begin

section \<open>Python values\<close>

text \<open>
  The node exchanges JSON with its peers and handles the decoded values as untyped Python
  values. \<open>pyval\<close> holds what \<open>json.loads\<close> can produce: \<open>None\<close>, booleans, integers,
  strings, lists and dictionaries (an association list; a lookup takes the first entry of a
  key). Non-integer JSON numbers are not represented.
\<close>

datatype pyval =
    PNone
  | PBool bool
  | PInt int
  | PStr string
  | PList "pyval list"
  | PDict "(string \<times> pyval) list"

datatype exn = ValueError | TypeError | KeyError string | AttributeError

text \<open>
  Python's \<open>==\<close> on these values: \<open>True == 1\<close> and \<open>False == 0\<close>, lists compare
  elementwise, dictionaries compare as mappings (the order of the entries is irrelevant).
\<close>

fun py_eq :: "pyval \<Rightarrow> pyval \<Rightarrow> bool" where
  "py_eq PNone w = (w = PNone)"
| "py_eq (PBool a) w =
     (case w of PBool b \<Rightarrow> a = b | PInt j \<Rightarrow> (if a then 1 else 0) = j | _ \<Rightarrow> False)"
| "py_eq (PInt i) w =
     (case w of PBool b \<Rightarrow> i = (if b then 1 else 0) | PInt j \<Rightarrow> i = j | _ \<Rightarrow> False)"
| "py_eq (PStr s) w = (w = PStr s)"
| "py_eq (PList xs) w = (case w of PList ys \<Rightarrow> list_all2 py_eq xs ys | _ \<Rightarrow> False)"
| "py_eq (PDict xs) w =
     (case w of
        PDict ys \<Rightarrow>
          list_all (\<lambda>(k, v). map_of ys k \<noteq> None) xs \<and>
          list_all (\<lambda>(k, v). map_of xs k \<noteq> None) ys \<and>
          list_all (\<lambda>(k, v). map_of xs k \<noteq> Some v \<or>
             (case map_of ys k of None \<Rightarrow> False | Some v' \<Rightarrow> py_eq v v')) xs
      | _ \<Rightarrow> False)"

text \<open>\<open>d[k]\<close>: \<open>KeyError\<close> when the dictionary lacks the key, \<open>TypeError\<close> when \<open>d\<close> is
  not a dictionary (a string key indexes neither a list nor a string).\<close>

fun getitem :: "pyval \<Rightarrow> string \<Rightarrow> exn + pyval" where
  "getitem (PDict kvs) k = (case map_of kvs k of None \<Rightarrow> Inl (KeyError k) | Some v \<Rightarrow> Inr v)"
| "getitem _ k = Inl TypeError"

text \<open>\<open>d.get(k)\<close>: \<open>None\<close> when the dictionary lacks the key, \<open>AttributeError\<close> when
  \<open>d\<close> is not a dictionary.\<close>

fun py_get :: "pyval \<Rightarrow> string \<Rightarrow> exn + pyval" where
  "py_get (PDict kvs) k = (case map_of kvs k of None \<Rightarrow> Inr PNone | Some v \<Rightarrow> Inr v)"
| "py_get _ k = Inl AttributeError"

text \<open>Iterating a value: the elements of a list, the keys of a dictionary, the characters
  of a string; anything else is not iterable.\<close>

fun py_iter :: "pyval \<Rightarrow> exn + pyval list" where
  "py_iter (PList xs) = Inr xs"
| "py_iter (PDict kvs) = Inr (map PStr (remdups (map fst kvs)))"
| "py_iter (PStr s) = Inr (map (\<lambda>c. PStr [c]) s)"
| "py_iter _ = Inl TypeError"

fun hashable :: "pyval \<Rightarrow> bool" where
  "hashable (PList xs) = False"
| "hashable (PDict kvs) = False"
| "hashable _ = True"

text \<open>
  A Python \<open>set\<close> is a list without repetitions (up to \<open>==\<close>). \<open>s.union(it)\<close> iterates
  \<open>it\<close> and raises \<open>TypeError\<close> when \<open>it\<close> is not iterable or holds an unhashable element.
\<close>

definition py_mem :: "pyval \<Rightarrow> pyval list \<Rightarrow> bool" where
  "py_mem x xs = list_ex (py_eq x) xs"

fun set_add_all :: "pyval list \<Rightarrow> pyval list \<Rightarrow> pyval list" where
  "set_add_all acc [] = acc"
| "set_add_all acc (y # ys) = set_add_all (if py_mem y acc then acc else acc @ [y]) ys"

definition set_union :: "pyval list \<Rightarrow> pyval \<Rightarrow> exn + pyval list" where
  "set_union known it =
     (case py_iter it of
        Inl e \<Rightarrow> Inl e
      | Inr ys \<Rightarrow> if list_all hashable ys then Inr (set_add_all known ys) else Inl TypeError)"

text \<open>Sequencing of computations that may raise.\<close>

definition bind_exn :: "exn + 'a \<Rightarrow> ('a \<Rightarrow> exn + 'b) \<Rightarrow> exn + 'b" where
  "bind_exn m f = (case m of Inl e \<Rightarrow> Inl e | Inr x \<Rightarrow> f x)"

section \<open>Requests, replies and domain objects\<close>

text \<open>
  A URL is a template of the configuration (\<open>config['network'][...]\<close>) together with the
  arguments passed to \<open>format\<close>; the template texts are not part of \<open>node.py\<close>.
\<close>

datatype template =
    NODES_URL | INBOX_URL | TRANSACTIONS_URL | TRANSACTIONS_INV_URL
  | BLOCKS_INV_URL | BLOCKS_URL | STATUS_URL | CONNECT_URL

datatype url = Url template "pyval list"

datatype request = GET url | POST url pyval

text \<open>
  What \<open>json.loads(response.json())\<close> does with a response, in its two steps.
  \<^item> \<open>Not_Json\<close>: the body is not JSON, and \<open>response.json()\<close> raises
    \<open>requests.exceptions.JSONDecodeError\<close>, which is a \<open>RequestException\<close>.
  \<^item> \<open>Undecodable e\<close>: \<open>response.json()\<close> returns a value, and \<open>json.loads\<close> of that
    value raises \<open>e\<close>, which is not a \<open>RequestException\<close>: \<open>TypeError\<close> when the value
    is not a string, \<open>ValueError\<close> when the string is not a JSON text.
  \<^item> \<open>Payload v\<close>: both steps succeed and \<open>v\<close> is the decoded value.
\<close>

datatype payload = Not_Json | Undecodable exn | Payload pyval

text \<open>The outcome of \<open>requests.get\<close> / \<open>requests.post\<close>: a \<open>RequestException\<close> (transport
  failure) or a response with its status code.\<close>

datatype reply = RequestException | Response int payload

record transaction =
  source :: pyval
  destination :: pyval
  amount :: pyval
  fee :: pyval
  prev_hash :: pyval
  tx_type :: pyval
  timestamp :: pyval
  tx_hash :: pyval
  asset :: pyval
  data :: pyval
  signature :: pyval

record block_header =
  previous_hash :: pyval
  merkle_root :: pyval
  header_timestamp :: pyval
  nonce :: pyval
  version :: pyval

text \<open>A mined block, as far as \<open>mine\<close> reads it: \<open>block.transactions\<close> and
  \<open>block.block_header.hash\<close>.\<close>

record block =
  transactions :: "transaction list"
  block_header_hash :: pyval

text \<open>The calls the node makes to its collaborators, in the order it makes them.\<close>

datatype event =
    Http request
  | Add_Peer pyval
  | Record_Downtime pyval
  | Add_Block block bool
  | Remove_Unconfirmed "transaction list"

section \<open>The node and its surroundings\<close>

text \<open>
  \<open>'p\<close> is the state of the peer registry \<open>crankycoin.repository.Peers\<close>, which is not
  part of \<open>node.py\<close>: its four operations are parameters, as are the remote peers
  (\<open>http\<close>), the constructor of \<open>crankycoin.models.Transaction\<close> (from the eleven
  constructor arguments to the attributes of the object built) and the order in which
  Python iterates the candidate set (\<open>set_order\<close>).
\<close>

record 'p env =
  host :: pyval
  FULL_NODE_PORT :: pyval
  MIN_PEERS :: int
  MAX_PEERS :: int
  network :: pyval
  http :: "request \<Rightarrow> reply"
  Transaction :: "transaction \<Rightarrow> transaction"
  set_order :: "pyval list \<Rightarrow> pyval list"
  get_peers_count :: "'p \<Rightarrow> nat"
  get_all_peers :: "'p \<Rightarrow> pyval list"
  add_peer :: "pyval \<Rightarrow> 'p \<Rightarrow> 'p"
  record_downtime :: "pyval \<Rightarrow> 'p \<Rightarrow> 'p"

record 'p state =
  peers :: 'p
  trace :: "event list"

definition emit :: "event \<Rightarrow> 'p state \<Rightarrow> 'p state" where
  "emit e s = s\<lparr>trace := trace s @ [e]\<rparr>"

definition requests_get :: "'p env \<Rightarrow> url \<Rightarrow> 'p state \<Rightarrow> reply \<times> 'p state" where
  "requests_get env u s = (http env (GET u), emit (Http (GET u)) s)"

definition requests_post :: "'p env \<Rightarrow> url \<Rightarrow> pyval \<Rightarrow> 'p state \<Rightarrow> reply \<times> 'p state" where
  "requests_post env u body s = (http env (POST u body), emit (Http (POST u body)) s)"

definition peers_record_downtime :: "'p env \<Rightarrow> pyval \<Rightarrow> 'p state \<Rightarrow> 'p state" where
  "peers_record_downtime env node s =
     emit (Record_Downtime node) (s\<lparr>peers := record_downtime env node (peers s)\<rparr>)"

definition peers_add_peer :: "'p env \<Rightarrow> pyval \<Rightarrow> 'p state \<Rightarrow> 'p state" where
  "peers_add_peer env peer s =
     emit (Add_Peer peer) (s\<lparr>peers := add_peer env peer (peers s)\<rparr>)"

text \<open>The events a run added, and the HTTP requests among them.\<close>

definition new_events :: "'p state \<Rightarrow> 'p state \<Rightarrow> event list" where
  "new_events s s' = drop (length (trace s)) (trace s')"

fun requests_of :: "event list \<Rightarrow> request list" where
  "requests_of [] = []"
| "requests_of (Http r # es) = r # requests_of es"
| "requests_of (_ # es) = requests_of es"

section \<open>NodeMixin\<close>

text \<open>
  Every operation takes the state before the call and returns the state after it, with
  either the exception that left the operation (\<open>Inl\<close>) or the value it returned
  (\<open>Inr\<close>). The decoding sits inside the \<open>try\<close> block, so the \<open>except\<close> clause also
  catches the \<open>RequestException\<close> that \<open>response.json()\<close> raises on a body that is not
  JSON. Where the source returns a decoded value or \<open>None\<close> the result is a
  \<open>pyval\<close> (\<open>PNone\<close> for \<open>None\<close>); where it returns an object or \<open>None\<close> the result
  is an \<open>option\<close>. Logging is left out.
\<close>

definition request_nodes ::
  "'p env \<Rightarrow> 'p state \<Rightarrow> pyval \<Rightarrow> pyval \<Rightarrow> (exn + pyval) \<times> 'p state" where
  "request_nodes env s node port =
     (case requests_get env (Url NODES_URL [node, port]) s of
        (RequestException, s1) \<Rightarrow> (Inr PNone, peers_record_downtime env node s1)
      | (Response status_code body, s1) \<Rightarrow>
          if status_code = 200 then
            (case body of
               Not_Json \<Rightarrow> (Inr PNone, peers_record_downtime env node s1)
             | Undecodable e \<Rightarrow> (Inl e, s1)
             | Payload all_nodes \<Rightarrow> (Inr all_nodes, s1))
          else (Inr PNone, s1))"

text \<open>The loop of \<open>find_known_peers\<close> over the peers enumerated at its start.\<close>

fun find_known_peers_loop ::
  "'p env \<Rightarrow> 'p state \<Rightarrow> pyval list \<Rightarrow> pyval list \<Rightarrow> (exn + pyval list) \<times> 'p state" where
  "find_known_peers_loop env s known_peers [] = (Inr known_peers, s)"
| "find_known_peers_loop env s known_peers (peer # rest) =
     (case request_nodes env s peer (FULL_NODE_PORT env) of
        (Inl e, s1) \<Rightarrow> (Inl e, s1)
      | (Inr nodes, s1) \<Rightarrow>
          if nodes \<noteq> PNone then
            (case bind_exn (getitem nodes ''full_nodes'') (set_union known_peers) of
               Inl e \<Rightarrow> (Inl e, s1)
             | Inr known_peers' \<Rightarrow> find_known_peers_loop env s1 known_peers' rest)
          else find_known_peers_loop env s1 known_peers rest)"

definition find_known_peers :: "'p env \<Rightarrow> 'p state \<Rightarrow> (exn + pyval list) \<times> 'p state" where
  "find_known_peers env s =
     (let all_peers = get_all_peers env (peers s)
      in find_known_peers_loop env s all_peers all_peers)"

definition ping_status :: "'p env \<Rightarrow> 'p state \<Rightarrow> pyval \<Rightarrow> (exn + pyval) \<times> 'p state" where
  "ping_status env s h =
     (case requests_get env (Url STATUS_URL [h, FULL_NODE_PORT env]) s of
        (RequestException, s1) \<Rightarrow> (Inr PNone, s1)
      | (Response status_code body, s1) \<Rightarrow>
          if status_code = 200 then
            (case body of
               Not_Json \<Rightarrow> (Inr PNone, s1)
             | Undecodable e \<Rightarrow> (Inl e, s1)
             | Payload status_dict \<Rightarrow> (Inr (PBool (py_eq status_dict (network env))), s1))
          else (Inr PNone, s1))"

section \<open>FullNode: admission of peers\<close>

text \<open>The \<open>try\<close> block of \<open>check_peers\<close> for one candidate: the status probe, then the
  connect handshake. A \<open>RequestException\<close> (of the transport, or of \<open>response.json()\<close> on
  a body that is not JSON) is swallowed; any other exception leaves.\<close>

definition check_peers_try :: "'p env \<Rightarrow> 'p state \<Rightarrow> pyval \<Rightarrow> (exn + unit) \<times> 'p state" where
  "check_peers_try env s peer =
     (case requests_get env (Url STATUS_URL [peer, FULL_NODE_PORT env]) s of
        (RequestException, s1) \<Rightarrow> (Inr (), s1)
      | (Response status_code body, s1) \<Rightarrow>
          if status_code \<noteq> 200 then (Inr (), s1)
          else
            (case body of
               Not_Json \<Rightarrow> (Inr (), s1)
             | Undecodable e \<Rightarrow> (Inl e, s1)
             | Payload status_dict \<Rightarrow>
                 if \<not> py_eq status_dict (network env) then (Inr (), s1)
                 else
                   (case requests_post env (Url CONNECT_URL [peer, FULL_NODE_PORT env])
                           (PDict [(''host'', host env)]) s1 of
                      (RequestException, s2) \<Rightarrow> (Inr (), s2)
                    | (Response status_code2 body2, s2) \<Rightarrow>
                        if status_code2 = 202 then
                          (case body2 of
                             Not_Json \<Rightarrow> (Inr (), s2)
                           | Undecodable e \<Rightarrow> (Inl e, s2)
                           | Payload d \<Rightarrow>
                               (case py_get d ''success'' of
                                  Inl e \<Rightarrow> (Inl e, s2)
                                | Inr v \<Rightarrow>
                                    if v = PBool True then (Inr (), peers_add_peer env peer s2)
                                    else (Inr (), s2)))
                        else (Inr (), s2))))"

text \<open>The \<open>for\<close> loop of \<open>check_peers\<close>: stop at the maximum, skip the node itself.\<close>

fun check_peers_loop :: "'p env \<Rightarrow> 'p state \<Rightarrow> pyval list \<Rightarrow> (exn + unit) \<times> 'p state" where
  "check_peers_loop env s [] = (Inr (), s)"
| "check_peers_loop env s (peer # rest) =
     (if int (get_peers_count env (peers s)) \<ge> MAX_PEERS env then (Inr (), s)
      else if py_eq peer (host env) then check_peers_loop env s rest
      else
        (case check_peers_try env s peer of
           (Inl e, s1) \<Rightarrow> (Inl e, s1)
         | (Inr u, s1) \<Rightarrow> check_peers_loop env s1 rest))"

definition check_peers :: "'p env \<Rightarrow> 'p state \<Rightarrow> (exn + unit) \<times> 'p state" where
  "check_peers env s =
     (if int (get_peers_count env (peers s)) < MIN_PEERS env then
        (case find_known_peers env s of
           (Inl e, s1) \<Rightarrow> (Inl e, s1)
         | (Inr known_peers, s1) \<Rightarrow> check_peers_loop env s1 (set_order env known_peers))
      else (Inr (), s))"

section \<open>Broadcasting\<close>

text \<open>\<open>broadcast_transaction\<close> receives \<open>transaction.to_dict()\<close>. Its loop returns the
  first response it gets.\<close>

fun broadcast_transaction_loop ::
  "'p env \<Rightarrow> 'p state \<Rightarrow> pyval \<Rightarrow> pyval list \<Rightarrow> (exn + reply option) \<times> 'p state" where
  "broadcast_transaction_loop env s body [] = (Inr None, s)"
| "broadcast_transaction_loop env s body (node # rest) =
     (case requests_post env (Url TRANSACTIONS_URL [node, FULL_NODE_PORT env, PStr '''']) body s of
        (RequestException, s1) \<Rightarrow>
          broadcast_transaction_loop env (peers_record_downtime env node s1) body rest
      | (Response status_code b, s1) \<Rightarrow> (Inr (Some (Response status_code b)), s1))"

definition broadcast_transaction ::
  "'p env \<Rightarrow> 'p state \<Rightarrow> pyval \<Rightarrow> (exn + reply option) \<times> 'p state" where
  "broadcast_transaction env s transaction_dict =
     (case check_peers env s of
        (Inl e, s1) \<Rightarrow> (Inl e, s1)
      | (Inr u, s1) \<Rightarrow>
          broadcast_transaction_loop env s1 (PDict [(''transaction'', transaction_dict)])
            (get_all_peers env (peers s1)))"

text \<open>The loop shared by \<open>broadcast_block_inv\<close>, \<open>broadcast_transaction_inv\<close> and
  \<open>broadcast_block_header\<close>: a post to the inbox of every peer.\<close>

fun broadcast_inbox_loop :: "'p env \<Rightarrow> 'p state \<Rightarrow> pyval \<Rightarrow> pyval list \<Rightarrow> 'p state" where
  "broadcast_inbox_loop env s body [] = s"
| "broadcast_inbox_loop env s body (node # rest) =
     (case requests_post env (Url INBOX_URL [node, FULL_NODE_PORT env]) body s of
        (RequestException, s1) \<Rightarrow>
          broadcast_inbox_loop env (peers_record_downtime env node s1) body rest
      | (Response status_code b, s1) \<Rightarrow> broadcast_inbox_loop env s1 body rest)"

definition broadcast_block_inv ::
  "'p env \<Rightarrow> 'p state \<Rightarrow> pyval \<Rightarrow> (exn + unit) \<times> 'p state" where
  "broadcast_block_inv env s block_hashes =
     (case check_peers env s of
        (Inl e, s1) \<Rightarrow> (Inl e, s1)
      | (Inr u, s1) \<Rightarrow>
          (Inr (), broadcast_inbox_loop env s1 (PDict [(''block_hashes'', block_hashes)])
                     (get_all_peers env (peers s1))))"

definition broadcast_transaction_inv ::
  "'p env \<Rightarrow> 'p state \<Rightarrow> pyval \<Rightarrow> (exn + unit) \<times> 'p state" where
  "broadcast_transaction_inv env s tx_hashes =
     (case check_peers env s of
        (Inl e, s1) \<Rightarrow> (Inl e, s1)
      | (Inr u, s1) \<Rightarrow>
          (Inr (), broadcast_inbox_loop env s1 (PDict [(''tx_hashes'', tx_hashes)])
                     (get_all_peers env (peers s1))))"

section \<open>FullNode: retrieval from a peer\<close>

text \<open>The three branches that choose the URL of \<open>request_block_header\<close>; \<open>block_hash\<close> and
  \<open>height\<close> default to \<open>None\<close>.\<close>

definition block_header_url :: "pyval \<Rightarrow> pyval \<Rightarrow> pyval \<Rightarrow> pyval \<Rightarrow> url" where
  "block_header_url node port block_hash height =
     (if block_hash \<noteq> PNone then Url BLOCKS_URL [node, port, PStr ''hash'', block_hash]
      else if height \<noteq> PNone then Url BLOCKS_URL [node, port, PStr ''height'', height]
      else Url BLOCKS_URL [node, port, PStr ''height'', PStr ''latest''])"

text \<open>The arguments of the \<open>BlockHeader\<close> constructor, read from the dictionary from left
  to right; the first missing key raises.\<close>

definition block_header_of :: "pyval \<Rightarrow> exn + block_header" where
  "block_header_of block_dict =
     bind_exn (getitem block_dict ''previous_hash'') (\<lambda>a1.
     bind_exn (getitem block_dict ''merkle_root'') (\<lambda>a2.
     bind_exn (getitem block_dict ''timestamp'') (\<lambda>a3.
     bind_exn (getitem block_dict ''nonce'') (\<lambda>a4.
     bind_exn (getitem block_dict ''version'') (\<lambda>a5.
       Inr \<lparr>previous_hash = a1, merkle_root = a2, header_timestamp = a3,
            nonce = a4, version = a5\<rparr>)))))"

definition request_block_header ::
  "'p env \<Rightarrow> 'p state \<Rightarrow> pyval \<Rightarrow> pyval \<Rightarrow> pyval \<Rightarrow> pyval
     \<Rightarrow> (exn + block_header option) \<times> 'p state" where
  "request_block_header env s node port block_hash height =
     (case requests_get env (block_header_url node port block_hash height) s of
        (RequestException, s1) \<Rightarrow> (Inr None, peers_record_downtime env node s1)
      | (Response status_code body, s1) \<Rightarrow>
          if status_code = 200 then
            (case body of
               Not_Json \<Rightarrow> (Inr None, peers_record_downtime env node s1)
             | Undecodable e \<Rightarrow> (Inl e, s1)
             | Payload block_dict \<Rightarrow>
                 (case block_header_of block_dict of
                    Inl e \<Rightarrow> (Inl e, s1)
                  | Inr block_header \<Rightarrow> (Inr (Some block_header), s1)))
          else (Inr None, s1))"

text \<open>The eleven arguments of the \<open>Transaction\<close> constructor, read from the dictionary.\<close>

definition transaction_args :: "pyval \<Rightarrow> exn + transaction" where
  "transaction_args tx_dict =
     bind_exn (getitem tx_dict ''source'') (\<lambda>a1.
     bind_exn (getitem tx_dict ''destination'') (\<lambda>a2.
     bind_exn (getitem tx_dict ''amount'') (\<lambda>a3.
     bind_exn (getitem tx_dict ''fee'') (\<lambda>a4.
     bind_exn (getitem tx_dict ''prev_hash'') (\<lambda>a5.
     bind_exn (getitem tx_dict ''tx_type'') (\<lambda>a6.
     bind_exn (getitem tx_dict ''timestamp'') (\<lambda>a7.
     bind_exn (getitem tx_dict ''tx_hash'') (\<lambda>a8.
     bind_exn (getitem tx_dict ''asset'') (\<lambda>a9.
     bind_exn (getitem tx_dict ''data'') (\<lambda>a10.
     bind_exn (getitem tx_dict ''signature'') (\<lambda>a11.
       Inr \<lparr>source = a1, destination = a2, amount = a3, fee = a4, prev_hash = a5,
            tx_type = a6, timestamp = a7, tx_hash = a8, asset = a9, data = a10,
            signature = a11\<rparr>)))))))))))"

text \<open>\<open>request_transaction\<close>: the object built by the constructor is returned only when its
  \<open>tx_hash\<close> equals the \<open>tx_hash\<close> of the dictionary.\<close>

definition request_transaction ::
  "'p env \<Rightarrow> 'p state \<Rightarrow> pyval \<Rightarrow> pyval \<Rightarrow> pyval \<Rightarrow> (exn + transaction option) \<times> 'p state" where
  "request_transaction env s node port txh =
     (case requests_get env (Url TRANSACTIONS_URL [node, port, txh]) s of
        (RequestException, s1) \<Rightarrow> (Inr None, peers_record_downtime env node s1)
      | (Response status_code body, s1) \<Rightarrow>
          if status_code = 200 then
            (case body of
               Not_Json \<Rightarrow> (Inr None, peers_record_downtime env node s1)
             | Undecodable e \<Rightarrow> (Inl e, s1)
             | Payload tx_dict \<Rightarrow>
                 (case transaction_args tx_dict of
                    Inl e \<Rightarrow> (Inl e, s1)
                  | Inr args \<Rightarrow>
                      (let transaction = Transaction env args
                       in if \<not> py_eq (tx_hash transaction) (tx_hash args) then (Inr None, s1)
                          else (Inr (Some transaction), s1))))
          else (Inr None, s1))"



section \<open>FullNode: mining\<close>

text \<open>
  One pass through the body of the \<open>while\<close> loop of \<open>mine\<close>. \<open>mine_block\<close> and
  \<open>Blockchain.add_block\<close> are not part of \<open>node.py\<close>: an attempt gives what \<open>mine_block\<close>
  returned (\<open>None\<close> when it found no block) and what \<open>add_block\<close> answers for that block.
\<close>

type_synonym attempt = "block option \<times> bool"

definition mine_iteration :: "'p env \<Rightarrow> 'p state \<Rightarrow> attempt \<Rightarrow> (exn + unit) \<times> 'p state" where
  "mine_iteration env s a =
     (case fst a of
        None \<Rightarrow> (Inr (), s)
      | Some b \<Rightarrow>
          (let s1 = emit (Add_Block b (snd a)) s
           in if snd a then
                broadcast_block_inv env
                  (emit (Remove_Unconfirmed (drop 1 (transactions b))) s1)
                  (block_header_hash b)
              else (Inr (), s1)))"

text \<open>The loop runs one iteration for each attempt made while \<open>exit_flag\<close> is read as
  unset, and ends when the list is exhausted (the flag is read as set) or an exception
  leaves an iteration.\<close>

fun mine :: "'p env \<Rightarrow> 'p state \<Rightarrow> attempt list \<Rightarrow> (exn + unit) \<times> 'p state" where
  "mine env s [] = (Inr (), s)"
| "mine env s (a # rest) =
     (case mine_iteration env s a of
        (Inl e, s1) \<Rightarrow> (Inl e, s1)
      | (Inr u, s1) \<Rightarrow> mine env s1 rest)"

section \<open>A reference peer registry and a small network\<close>

text \<open>
  Modelled from the spec: \<open>crankycoin.repository.Peers\<close> is not part of \<open>node.py\<close>. The
  specification describes it as a bounded registry keyed by the peer address, with a count,
  an enumeration, an insertion that is a no-op once at the maximum, and downtime accounting
  that may evict a peer after repeated failures (the policy is left open; here a peer is
  evicted when its count of failures exceeds a threshold). An entry is an address with its
  count of recorded failures.
\<close>

type_synonym registry = "(pyval \<times> nat) list"

text \<open>Modelled from the spec: the count of the registry (\<open>Peers.get_peers_count\<close>).\<close>

definition Peers_get_peers_count :: "registry \<Rightarrow> nat" where
  "Peers_get_peers_count p = length p"

text \<open>Modelled from the spec: the enumeration of the registry (\<open>Peers.get_all_peers\<close>).\<close>

definition Peers_get_all_peers :: "registry \<Rightarrow> pyval list" where
  "Peers_get_all_peers p = map fst p"

text \<open>Modelled from the spec: the insertion (\<open>Peers.add_peer\<close>), a no-op once at the
  maximum; the address is a unique key.\<close>

definition Peers_add_peer :: "nat \<Rightarrow> pyval \<Rightarrow> registry \<Rightarrow> registry" where
  "Peers_add_peer maximum h p =
     (if length p \<ge> maximum \<or> py_mem h (map fst p) then p else p @ [(h, 0)])"

text \<open>Modelled from the spec: the downtime accounting (\<open>Peers.record_downtime\<close>), which
  evicts a peer after repeated failures.\<close>

fun Peers_record_downtime :: "nat \<Rightarrow> pyval \<Rightarrow> registry \<Rightarrow> registry" where
  "Peers_record_downtime threshold h [] = []"
| "Peers_record_downtime threshold h ((k, n) # p) =
     (if py_eq h k then (if Suc n > threshold then p else (k, Suc n) # p)
      else (k, n) # Peers_record_downtime threshold h p)"

text \<open>A node named \<open>me\<close> with the reference registry; the remote peers are the parameter.\<close>

definition local_network :: pyval where
  "local_network = PDict [(''name'', PStr ''cranky''), (''version'', PInt 1)]"

definition node_with :: "int \<Rightarrow> int \<Rightarrow> (request \<Rightarrow> reply) \<Rightarrow> registry env" where
  "node_with lo hi remote =
     \<lparr>host = PStr ''me'', FULL_NODE_PORT = PInt 8080, MIN_PEERS = lo, MAX_PEERS = hi,
      network = local_network, http = remote, Transaction = (\<lambda>t. t),
      set_order = (\<lambda>xs. xs),
      get_peers_count = Peers_get_peers_count, get_all_peers = Peers_get_all_peers,
      add_peer = Peers_add_peer (nat hi), record_downtime = Peers_record_downtime 3\<rparr>"

definition start :: "pyval list \<Rightarrow> registry state" where
  "start hs = \<lparr>peers = map (\<lambda>h. (h, 0)) hs, trace = []\<rparr>"


definition sample_tx_dict :: pyval where
  "sample_tx_dict =
     PDict [(''source'', PStr ''alice''), (''destination'', PStr ''bob''), (''amount'', PInt 5),
            (''fee'', PInt 1), (''prev_hash'', PStr ''0''), (''tx_type'', PInt 2),
            (''timestamp'', PInt 1500000000), (''tx_hash'', PStr ''abc''),
            (''asset'', PStr ''cranky''), (''data'', PStr ''''), (''signature'', PStr ''sig'')]"

text \<open>
  Remote peers: \<open>a\<close> lists \<open>b\<close> as a full node, \<open>b\<close> lists \<open>c\<close>, every other peer list is
  unreachable; every peer reports the local descriptor as its status (with the entries in
  another order), accepts a pushed transaction and an inbox post, and answers a connect
  request with \<open>connect_reply\<close>. A transaction inventory comes back as an empty object, a
  block inventory as a JSON string whose text \<open>json.loads\<close> rejects, a block header is not
  found.
\<close>

definition remote :: "reply \<Rightarrow> request \<Rightarrow> reply" where
  "remote connect_reply r =
     (case r of
        GET (Url t args) \<Rightarrow>
          (case t of
             NODES_URL \<Rightarrow>
               (if args = [PStr ''a'', PInt 8080]
                  then Response 200 (Payload (PDict [(''full_nodes'', PList [PStr ''b''])]))
                else if args = [PStr ''b'', PInt 8080]
                  then Response 200 (Payload (PDict [(''full_nodes'', PList [PStr ''c''])]))
                else RequestException)
           | STATUS_URL \<Rightarrow>
               Response 200
                 (Payload (PDict [(''version'', PInt 1), (''name'', PStr ''cranky'')]))
           | TRANSACTIONS_URL \<Rightarrow> Response 200 (Payload sample_tx_dict)
           | TRANSACTIONS_INV_URL \<Rightarrow> Response 200 (Payload (PDict []))
           | BLOCKS_INV_URL \<Rightarrow> Response 200 (Undecodable ValueError)
           | _ \<Rightarrow> Response 404 Not_Json)
      | POST (Url t args) body \<Rightarrow>
          (case t of
             CONNECT_URL \<Rightarrow> connect_reply
           | TRANSACTIONS_URL \<Rightarrow> Response 200 (Payload (PDict [(''success'', PBool True)]))
           | INBOX_URL \<Rightarrow> Response 200 (Payload (PDict [(''success'', PBool True)]))
           | _ \<Rightarrow> Response 404 Not_Json))"

definition acceptance :: reply where
  "acceptance = Response 202 (Payload (PDict [(''success'', PBool True)]))"

definition refusal :: reply where
  "refusal = Response 202 (Payload (PDict [(''success'', PBool False)]))"

text \<open>A connect answered with status 200 instead of 202.\<close>

definition plain_ok :: reply where
  "plain_ok = Response 200 (Payload (PDict [(''success'', PBool True)]))"

text \<open>The same remote peers, except that \<open>a\<close> answers the request for its peer list with
  an object that has no \<open>full_nodes\<close> entry.\<close>

definition listless :: "request \<Rightarrow> reply" where
  "listless r =
     (if r = GET (Url NODES_URL [PStr ''a'', PInt 8080]) then Response 200 (Payload (PDict []))
      else remote acceptance r)"

text \<open>The same remote peers, except that \<open>b\<close> lists \<open>a\<close>: the two list each other.\<close>

definition closed_pair :: "request \<Rightarrow> reply" where
  "closed_pair r =
     (if r = GET (Url NODES_URL [PStr ''b'', PInt 8080])
      then Response 200 (Payload (PDict [(''full_nodes'', PList [PStr ''a''])]))
      else remote acceptance r)"

text \<open>A block of three transactions, the first being the reward of the miner.\<close>

definition tx_of :: "string \<Rightarrow> transaction" where
  "tx_of h = \<lparr>source = PStr ''alice'', destination = PStr ''bob'', amount = PInt 5,
       fee = PInt 1, prev_hash = PStr ''0'', tx_type = PInt 2, timestamp = PInt 1500000000,
       tx_hash = PStr h, asset = PStr ''cranky'', data = PStr '''', signature = PStr ''sig''\<rparr>"

definition sample_block :: block where
  "sample_block = \<lparr>transactions = [tx_of ''coinbase'', tx_of ''t1'', tx_of ''t2''],
                    block_header_hash = PStr ''h''\<rparr>"

section \<open>Notions used in the statements\<close>

text \<open>
  The two checks of the admission handshake as the claim words them: the response is
  successful (any 2xx status code) with a body equal to the local network descriptor,
  respectively with a body whose \<open>success\<close> field is true.
\<close>

definition http_successful :: "int \<Rightarrow> bool" where
  "http_successful status_code \<longleftrightarrow> 200 \<le> status_code \<and> status_code < 300"

definition status_succeeds :: "'p env \<Rightarrow> pyval \<Rightarrow> bool" where
  "status_succeeds env peer =
     (case http env (GET (Url STATUS_URL [peer, FULL_NODE_PORT env])) of
        Response status_code (Payload d) \<Rightarrow>
          http_successful status_code \<and> py_eq d (network env)
      | _ \<Rightarrow> False)"

definition connect_succeeds :: "'p env \<Rightarrow> pyval \<Rightarrow> bool" where
  "connect_succeeds env peer =
     (case http env (POST (Url CONNECT_URL [peer, FULL_NODE_PORT env])
                       (PDict [(''host'', host env)])) of
        Response status_code (Payload d) \<Rightarrow>
          http_successful status_code \<and> getitem d ''success'' = Inr (PBool True)
      | _ \<Rightarrow> False)"

text \<open>
  The two checks with the status codes named: the status response has code 200 and a body
  equal to the local network descriptor; the connect response has code 202 (Accepted) and a
  body whose \<open>success\<close> entry is \<open>True\<close>.
\<close>

definition status_check :: "'p env \<Rightarrow> pyval \<Rightarrow> bool" where
  "status_check env peer =
     (case http env (GET (Url STATUS_URL [peer, FULL_NODE_PORT env])) of
        Response status_code (Payload d) \<Rightarrow> status_code = 200 \<and> py_eq d (network env)
      | _ \<Rightarrow> False)"

definition connect_check :: "'p env \<Rightarrow> pyval \<Rightarrow> bool" where
  "connect_check env peer =
     (case http env (POST (Url CONNECT_URL [peer, FULL_NODE_PORT env])
                       (PDict [(''host'', host env)])) of
        Response status_code (Payload d) \<Rightarrow>
          status_code = 202 \<and> py_get d ''success'' = Inr (PBool True)
      | _ \<Rightarrow> False)"

text \<open>A candidate that the admission pass would add: not the node itself, and passing both
  checks.\<close>

definition admissible :: "'p env \<Rightarrow> pyval \<Rightarrow> bool" where
  "admissible env c \<longleftrightarrow> \<not> py_eq c (host env) \<and> status_check env c \<and> connect_check env c"

text \<open>
  The events of peer discovery: a request for a peer list or a status, a connect request,
  recorded downtime, and the admission of a peer that passes both checks. No post to an
  inbox and no call to the chain or the mempool is among them.
\<close>

fun discovery_event :: "'p env \<Rightarrow> event \<Rightarrow> bool" where
  "discovery_event env (Http (GET (Url t args))) = (t = NODES_URL \<or> t = STATUS_URL)"
| "discovery_event env (Http (POST (Url t args) body)) = (t = CONNECT_URL)"
| "discovery_event env (Record_Downtime h) = True"
| "discovery_event env (Add_Peer h) = (status_check env h \<and> connect_check env h)"
| "discovery_event env (Add_Block b ok) = False"
| "discovery_event env (Remove_Unconfirmed txs) = False"

text \<open>A post of \<open>body\<close> to the inbox of some peer.\<close>

fun inbox_post :: "'p env \<Rightarrow> pyval \<Rightarrow> event \<Rightarrow> bool" where
  "inbox_post env body (Http (POST (Url t args) b)) =
     (t = INBOX_URL \<and> b = body \<and> length args = 2 \<and> args ! 1 = FULL_NODE_PORT env)"
| "inbox_post env body e = False"

text \<open>The events of a broadcast of \<open>body\<close> through the inbox: those of the refresh of the
  peers, and posts of \<open>body\<close> to an inbox.\<close>

definition broadcast_event :: "'p env \<Rightarrow> pyval \<Rightarrow> event \<Rightarrow> bool" where
  "broadcast_event env body e \<longleftrightarrow> discovery_event env e \<or> inbox_post env body e"

text \<open>The trace of \<open>s'\<close> continues the trace of \<open>s\<close> with events that satisfy \<open>P\<close>.\<close>

definition extends_with :: "(event \<Rightarrow> bool) \<Rightarrow> 'p state \<Rightarrow> 'p state \<Rightarrow> bool" where
  "extends_with P s s' \<longleftrightarrow>
     take (length (trace s)) (trace s') = trace s \<and> length (trace s) \<le> length (trace s') \<and>
     list_all P (new_events s s')"

text \<open>What the bound of the admission pass needs of the peer registry: an insertion adds at
  most one entry, and recording downtime adds none.\<close>

definition Peers_contract :: "'p env \<Rightarrow> bool" where
  "Peers_contract env \<longleftrightarrow>
     (\<forall>h p. get_peers_count env (add_peer env h p) \<le> Suc (get_peers_count env p)) \<and>
     (\<forall>h p. get_peers_count env (record_downtime env h p) \<le> get_peers_count env p)"

text \<open>
  The address is the key of the registry: inserting an address that is enumerated changes
  neither the enumeration nor the count, and an insertion removes no address and adds at most
  the one inserted.
\<close>

definition Peers_unique_key :: "'p env \<Rightarrow> bool" where
  "Peers_unique_key env \<longleftrightarrow>
     (\<forall>h p. py_mem h (get_all_peers env p) \<longrightarrow>
        get_all_peers env (add_peer env h p) = get_all_peers env p \<and>
        get_peers_count env (add_peer env h p) = get_peers_count env p) \<and>
     (\<forall>h p. set (get_all_peers env p) \<subseteq> set (get_all_peers env (add_peer env h p)) \<and>
        set (get_all_peers env (add_peer env h p)) \<subseteq> insert h (set (get_all_peers env p)))"

text \<open>A failed request: a transport failure, or a response whose status code is not 200.\<close>

fun failed :: "reply \<Rightarrow> bool" where
  "failed RequestException = True"
| "failed (Response status_code body) = (status_code \<noteq> 200)"

text \<open>A reply on which the \<open>except\<close> clause of a retrieval operation runs: a transport
  failure, or a response with status 200 whose body is not JSON.\<close>

fun caught :: "reply \<Rightarrow> bool" where
  "caught RequestException = True"
| "caught (Response status_code body) = (status_code = 200 \<and> body = Not_Json)"


text \<open>Every peer of the registry answers the request for its peer list: nothing is caught,
  so the discovery records no downtime.\<close>

definition lists_answered :: "'p env \<Rightarrow> 'p state \<Rightarrow> bool" where
  "lists_answered env s =
     list_all (\<lambda>p. \<not> caught (http env (GET (Url NODES_URL [p, FULL_NODE_PORT env]))))
       (get_all_peers env (peers s))"

text \<open>The discovery started in \<open>s\<close> learns of no candidate that could be added: every
  candidate it iterates over that is admissible is already enumerated by the registry.\<close>

definition nothing_new :: "'p env \<Rightarrow> 'p state \<Rightarrow> bool" where
  "nothing_new env s =
     (case fst (find_known_peers env s) of
        Inl e \<Rightarrow> True
      | Inr known_peers \<Rightarrow>
          list_all (\<lambda>c. admissible env c \<longrightarrow> py_mem c (get_all_peers env (peers s)))
            (set_order env known_peers))"

text \<open>
  The order of commits in a trace of the mining loop. A call of \<open>add_block\<close> that accepts
  the block is followed at once by the removal of the transactions of the block but the
  first; a removal occurs nowhere else; any other event (a request, an admission, recorded
  downtime) occurs only after such a removal and before the next call of \<open>add_block\<close>, so
  none precedes the first commit and none follows a rejected block. The flag tells whether
  such events are allowed at this point.
\<close>

fun order_from :: "bool \<Rightarrow> event list \<Rightarrow> bool" where
  "order_from allowed [] = True"
| "order_from allowed (Add_Block b True # Remove_Unconfirmed txs # es) =
     (txs = drop 1 (transactions b) \<and> order_from True es)"
| "order_from allowed (Add_Block b True # es) = False"
| "order_from allowed (Add_Block b False # es) = order_from False es"
| "order_from allowed (Remove_Unconfirmed txs # es) = False"
| "order_from allowed (e # es) = (allowed \<and> order_from allowed es)"

definition commit_order :: "event list \<Rightarrow> bool" where
  "commit_order es = order_from False es"

text \<open>The calls of \<open>add_block\<close> in a trace, and the calls that a list of attempts asks for:
  one for each attempt that produced a block.\<close>

fun commits :: "event list \<Rightarrow> (block \<times> bool) list" where
  "commits [] = []"
| "commits (Add_Block b ok # es) = (b, ok) # commits es"
| "commits (e # es) = commits es"

fun attempted :: "attempt list \<Rightarrow> (block \<times> bool) list" where
  "attempted [] = []"
| "attempted ((None, ok) # rest) = attempted rest"
| "attempted ((Some b, ok) # rest) = (b, ok) # attempted rest"

text \<open>A trace that is empty or begins with a call of \<open>add_block\<close>.\<close>

fun commit_led :: "event list \<Rightarrow> bool" where
  "commit_led [] = True"
| "commit_led (Add_Block b ok # es) = True"
| "commit_led (e # es) = False"

section \<open>Basic facts about the trace\<close>

lemma trace_emit [simp]: "trace (emit e s) = trace s @ [e]"
  by (simp add: emit_def)

lemma peers_emit [simp]: "peers (emit e s) = peers s"
  by (simp add: emit_def)

lemma new_events_append [simp]: "trace s' = trace s @ es \<Longrightarrow> new_events s s' = es"
  by (simp add: new_events_def)

section \<open>The selector of request_block_header\<close>

lemma trace_request_block_header:
  "trace (snd (request_block_header env s node port block_hash height)) =
     trace s @ Http (GET (block_header_url node port block_hash height)) #
       (if caught (http env (GET (block_header_url node port block_hash height)))
        then [Record_Downtime node] else [])"
  by (simp add: request_block_header_def requests_get_def peers_record_downtime_def
        split: reply.splits payload.splits sum.splits)

text \<open>
  C10. \<open>request_block_header\<close> issues exactly one HTTP request. When \<open>block_hash\<close> is not
  \<open>None\<close> it is the request by hash, whatever \<open>height\<close> is; when \<open>block_hash\<close> is \<open>None\<close>
  and \<open>height\<close> is not, it is the request by height; when both are \<open>None\<close> it is the request
  for the height \<open>latest\<close>.
\<close>

theorem request_block_header_selector:
  "(block_hash \<noteq> PNone \<longrightarrow>
      requests_of (new_events s (snd (request_block_header env s node port block_hash height)))
        = [GET (Url BLOCKS_URL [node, port, PStr ''hash'', block_hash])]) \<and>
   (block_hash = PNone \<and> height \<noteq> PNone \<longrightarrow>
      requests_of (new_events s (snd (request_block_header env s node port block_hash height)))
        = [GET (Url BLOCKS_URL [node, port, PStr ''height'', height])]) \<and>
   (block_hash = PNone \<and> height = PNone \<longrightarrow>
      requests_of (new_events s (snd (request_block_header env s node port block_hash height)))
        = [GET (Url BLOCKS_URL [node, port, PStr ''height'', PStr ''latest''])])"
  by (simp add: trace_request_block_header block_header_url_def)

theorem request_block_header_selector_witness:
  "PStr ''h'' \<noteq> PNone \<and>
   requests_of (new_events (start [])
      (snd (request_block_header (node_with 1 8 (\<lambda>r. RequestException)) (start [])
              (PStr ''a'') (PInt 8080) (PStr ''h'') (PInt 5))))
     = [GET (Url BLOCKS_URL [PStr ''a'', PInt 8080, PStr ''hash'', PStr ''h''])] \<and>
   PInt 5 \<noteq> PNone \<and>
   requests_of (new_events (start [])
      (snd (request_block_header (node_with 1 8 (\<lambda>r. RequestException)) (start [])
              (PStr ''a'') (PInt 8080) PNone (PInt 5))))
     = [GET (Url BLOCKS_URL [PStr ''a'', PInt 8080, PStr ''height'', PInt 5])] \<and>
   requests_of (new_events (start [])
      (snd (request_block_header (node_with 1 8 (\<lambda>r. RequestException)) (start [])
              (PStr ''a'') (PInt 8080) PNone PNone)))
     = [GET (Url BLOCKS_URL [PStr ''a'', PInt 8080, PStr ''height'', PStr ''latest''])]"
  using request_block_header_selector
      [where block_hash = "PStr ''h''" and height = "PInt 5" and s = "start []"
         and env = "node_with 1 8 (\<lambda>r. RequestException)"
         and node = "PStr ''a''" and port = "PInt 8080"]
    request_block_header_selector
      [where block_hash = PNone and height = "PInt 5" and s = "start []"
         and env = "node_with 1 8 (\<lambda>r. RequestException)"
         and node = "PStr ''a''" and port = "PInt 8080"]
    request_block_header_selector
      [where block_hash = PNone and height = PNone and s = "start []"
         and env = "node_with 1 8 (\<lambda>r. RequestException)"
         and node = "PStr ''a''" and port = "PInt 8080"]
  by simp

section \<open>Hash integrity of fetched transactions\<close>

lemma transaction_args_tx_hash:
  "transaction_args d = Inr args \<Longrightarrow> getitem d ''tx_hash'' = Inr (tx_hash args)"
  by (auto simp: transaction_args_def bind_exn_def split: sum.splits)

lemma trace_request_transaction:
  "trace (snd (request_transaction env s node port txh)) =
     trace s @ Http (GET (Url TRANSACTIONS_URL [node, port, txh])) #
       (if caught (http env (GET (Url TRANSACTIONS_URL [node, port, txh])))
        then [Record_Downtime node] else [])"
  by (simp add: request_transaction_def requests_get_def peers_record_downtime_def Let_def
        split: reply.splits payload.splits sum.splits)

lemma request_transaction_downtime:
  "Record_Downtime h \<in> set (new_events s (snd (request_transaction env s node port txh)))
     \<longleftrightarrow> h = node \<and> caught (http env (GET (Url TRANSACTIONS_URL [node, port, txh])))"
  by (auto simp add: trace_request_transaction)




section \<open>The status probe\<close>

text \<open>
  C9, as stated: on a response with status 200, \<open>ping_status\<close> returns the descriptor sent
  by the peer. It does not: it returns the outcome of comparing that descriptor with the
  local one.
\<close>

theorem ping_status_descriptor_counterexample:
  "http (node_with 1 8 (remote acceptance)) (GET (Url STATUS_URL [PStr ''a'', PInt 8080]))
     = Response 200 (Payload (PDict [(''version'', PInt 1), (''name'', PStr ''cranky'')])) \<and>
   fst (ping_status (node_with 1 8 (remote acceptance)) (start [PStr ''a'']) (PStr ''a''))
     = Inr (PBool True) \<and>
   fst (ping_status (node_with 1 8 (remote acceptance)) (start [PStr ''a'']) (PStr ''a''))
     \<noteq> Inr (PDict [(''version'', PInt 1), (''name'', PStr ''cranky'')])"
  by (simp add: ping_status_def requests_get_def node_with_def remote_def local_network_def)

text \<open>
  C9, amended. On a response with status 200 whose body decodes, \<open>ping_status\<close> returns the
  boolean that tells whether the descriptor of the peer equals the local network descriptor;
  on a transport failure or another status code it returns \<open>None\<close>. In every case the
  request is its only event: no downtime is recorded.
\<close>

theorem ping_status_compares:
  "(http env (GET (Url STATUS_URL [h, FULL_NODE_PORT env])) = Response 200 (Payload d) \<longrightarrow>
      fst (ping_status env s h) = Inr (PBool (py_eq d (network env)))) \<and>
   (failed (http env (GET (Url STATUS_URL [h, FULL_NODE_PORT env]))) \<longrightarrow>
      fst (ping_status env s h) = Inr PNone) \<and>
   peers (snd (ping_status env s h)) = peers s \<and>
   new_events s (snd (ping_status env s h)) = [Http (GET (Url STATUS_URL [h, FULL_NODE_PORT env]))]"
  by (auto simp add: ping_status_def requests_get_def split: reply.splits payload.splits)

theorem ping_status_compares_witness:
  "http (node_with 1 8 (remote acceptance)) (GET (Url STATUS_URL [PStr ''a'', PInt 8080]))
     = Response 200 (Payload (PDict [(''version'', PInt 1), (''name'', PStr ''cranky'')])) \<and>
   fst (ping_status (node_with 1 8 (remote acceptance)) (start []) (PStr ''a'')) = Inr (PBool True) \<and>
   failed (http (node_with 1 8 (\<lambda>r. RequestException)) (GET (Url STATUS_URL [PStr ''a'', PInt 8080]))) \<and>
   fst (ping_status (node_with 1 8 (\<lambda>r. RequestException)) (start []) (PStr ''a'')) = Inr PNone"
  using ping_status_compares
      [where env = "node_with 1 8 (remote acceptance)" and h = "PStr ''a''" and s = "start []"
         and d = "PDict [(''version'', PInt 1), (''name'', PStr ''cranky'')]"]
    ping_status_compares
      [where env = "node_with 1 8 (\<lambda>r. RequestException)" and h = "PStr ''a''" and s = "start []"]
  by (simp add: node_with_def remote_def local_network_def)

section \<open>Failures of the retrieval operations\<close>




















section \<open>Events added by discovery and broadcasting\<close>

lemma extends_with_iff:
  "extends_with P s s' \<longleftrightarrow> (\<exists>es. trace s' = trace s @ es \<and> list_all P es)"
proof
  assume h: "extends_with P s s'"
  then have "trace s' = trace s @ new_events s s'"
    unfolding extends_with_def new_events_def
    by (metis append_take_drop_id)
  with h show "\<exists>es. trace s' = trace s @ es \<and> list_all P es"
    unfolding extends_with_def by blast
next
  assume "\<exists>es. trace s' = trace s @ es \<and> list_all P es"
  then show "extends_with P s s'"
    unfolding extends_with_def new_events_def by auto
qed

lemma extends_with_refl [simp]: "extends_with P s s"
  by (simp add: extends_with_iff)

lemma extends_with_trans:
  "extends_with P s s1 \<Longrightarrow> extends_with P s1 s2 \<Longrightarrow> extends_with P s s2"
  unfolding extends_with_iff by auto

lemma extends_with_mono:
  "extends_with P s s' \<Longrightarrow> (\<And>e. P e \<Longrightarrow> Q e) \<Longrightarrow> extends_with Q s s'"
  unfolding extends_with_iff by (auto simp: list_all_iff)

lemma new_events_extends_with:
  "extends_with P s s' \<Longrightarrow> list_all P (new_events s s')"
  by (simp add: extends_with_def)

lemma trace_extends_with:
  "extends_with P s s' \<Longrightarrow> trace s' = trace s @ new_events s s'"
  by (auto simp: extends_with_iff)

lemma new_events_trans:
  "extends_with P s s1 \<Longrightarrow> extends_with Q s1 s2 \<Longrightarrow>
     new_events s s2 = new_events s s1 @ new_events s1 s2"
  by (auto simp: extends_with_iff)

lemma extends_with_request_nodes:
  "extends_with (discovery_event env) s (snd (request_nodes env s node port))"
  by (auto simp: request_nodes_def requests_get_def extends_with_iff peers_record_downtime_def
      split: reply.splits payload.splits)

lemma extends_with_find_known_peers_loop:
  "extends_with (discovery_event env) s (snd (find_known_peers_loop env s known ps))"
proof (induction ps arbitrary: s known)
  case Nil
  show ?case by simp
next
  case (Cons peer rest)
  show ?case
  proof (cases "request_nodes env s peer (FULL_NODE_PORT env)")
    case (Pair r s1)
    have s1: "extends_with (discovery_event env) s s1"
      using extends_with_request_nodes [of env s peer "FULL_NODE_PORT env"] Pair by simp
    show ?thesis
      using Pair s1 Cons.IH [of s1]
      by (auto split: sum.splits intro: extends_with_trans)
  qed
qed

lemma extends_with_find_known_peers:
  "extends_with (discovery_event env) s (snd (find_known_peers env s))"
  by (simp add: find_known_peers_def Let_def extends_with_find_known_peers_loop)

text \<open>The \<open>try\<close> block, by the outcome of the two checks.\<close>

lemma check_peers_try_cases:
  "check_peers_try env s peer =
     (if status_check env peer \<and> connect_check env peer then
        (Inr (), peers_add_peer env peer
           (emit (Http (POST (Url CONNECT_URL [peer, FULL_NODE_PORT env]) (PDict [(''host'', host env)])))
              (emit (Http (GET (Url STATUS_URL [peer, FULL_NODE_PORT env]))) s)))
      else (fst (check_peers_try env s peer),
            if status_check env peer
            then emit (Http (POST (Url CONNECT_URL [peer, FULL_NODE_PORT env]) (PDict [(''host'', host env)])))
              (emit (Http (GET (Url STATUS_URL [peer, FULL_NODE_PORT env]))) s)
            else emit (Http (GET (Url STATUS_URL [peer, FULL_NODE_PORT env]))) s))"
  by (auto simp: check_peers_try_def status_check_def connect_check_def requests_get_def
        requests_post_def split: reply.splits payload.splits sum.splits)

lemma extends_with_check_peers_try:
  "extends_with (discovery_event env) s (snd (check_peers_try env s peer))"
  by (subst check_peers_try_cases) (simp add: extends_with_iff peers_add_peer_def)

lemma extends_with_check_peers_loop:
  "extends_with (discovery_event env) s (snd (check_peers_loop env s ps))"
proof (induction ps arbitrary: s)
  case Nil
  show ?case by simp
next
  case (Cons peer rest)
  show ?case
  proof (cases "check_peers_try env s peer")
    case (Pair r s1)
    have "extends_with (discovery_event env) s s1"
      using extends_with_check_peers_try [of env s peer] Pair by simp
    then show ?thesis
      using Pair Cons.IH [of s1] Cons.IH [of s]
      by (auto split: sum.splits intro: extends_with_trans)
  qed
qed

lemma extends_with_check_peers:
  "extends_with (discovery_event env) s (snd (check_peers env s))"
proof (cases "find_known_peers env s")
  case (Pair r s1)
  have "extends_with (discovery_event env) s s1"
    using extends_with_find_known_peers [of env s] Pair by simp
  then show ?thesis
    using Pair extends_with_check_peers_loop [of env s1]
    by (auto simp: check_peers_def split: sum.splits intro: extends_with_trans)
qed

section \<open>Admission needs both checks\<close>

text \<open>
  C4, as stated: a candidate is added if and only if its status response is successful with
  a body equal to the local descriptor and its connect response is successful with a body
  whose \<open>success\<close> field is true. A candidate whose connect request is answered with status
  200 and \<open>success\<close> true passes both checks as worded, and is not added: the source asks
  for the status 202.
\<close>

theorem admission_status_code_counterexample:
  "http (node_with 5 8 (remote plain_ok))
      (POST (Url CONNECT_URL [PStr ''b'', PInt 8080]) (PDict [(''host'', PStr ''me'')]))
     = Response 200 (Payload (PDict [(''success'', PBool True)])) \<and>
   http_successful 200 \<and>
   status_succeeds (node_with 5 8 (remote plain_ok)) (PStr ''b'') \<and>
   connect_succeeds (node_with 5 8 (remote plain_ok)) (PStr ''b'') \<and>
   Add_Peer (PStr ''b'') \<notin> set (new_events (start [PStr ''a''])
      (snd (check_peers_try (node_with 5 8 (remote plain_ok)) (start [PStr ''a'']) (PStr ''b'')))) \<and>
   peers (snd (check_peers_try (node_with 5 8 (remote plain_ok)) (start [PStr ''a'']) (PStr ''b'')))
     = peers (start [PStr ''a'']) \<and>
   get_all_peers (node_with 5 8 (remote plain_ok))
     (peers (snd (check_peers (node_with 5 8 (remote plain_ok)) (start [PStr ''a'']))))
     = [PStr ''a'']"
  by code_simp

text \<open>
  C4, amended. For a candidate that the admission pass probes, \<open>add_peer\<close> is called if and
  only if both checks succeed: the status response has code 200 and a body equal to the
  local network descriptor, and the connect response has code 202 and a body whose
  \<open>success\<close> entry is \<open>True\<close>; otherwise the registry is left as it was. Over a whole pass,
  every peer that is added has passed both checks.
\<close>

theorem admission_requires_both_checks:
  "(Add_Peer peer \<in> set (new_events s (snd (check_peers_try env s peer)))
      \<longleftrightarrow> status_check env peer \<and> connect_check env peer) \<and>
   peers (snd (check_peers_try env s peer)) =
     (if status_check env peer \<and> connect_check env peer
      then add_peer env peer (peers s) else peers s) \<and>
   (\<forall>h. Add_Peer h \<in> set (new_events s (snd (check_peers env s)))
      \<longrightarrow> status_check env h \<and> connect_check env h)"
proof (intro conjI allI impI)
  show "Add_Peer peer \<in> set (new_events s (snd (check_peers_try env s peer)))
      \<longleftrightarrow> status_check env peer \<and> connect_check env peer"
    by (subst check_peers_try_cases) (simp add: peers_add_peer_def)
  show "peers (snd (check_peers_try env s peer)) =
     (if status_check env peer \<and> connect_check env peer
      then add_peer env peer (peers s) else peers s)"
    by (subst check_peers_try_cases) (simp add: peers_add_peer_def)
next
  fix h
  assume "Add_Peer h \<in> set (new_events s (snd (check_peers env s)))"
  moreover have "list_all (discovery_event env) (new_events s (snd (check_peers env s)))"
    by (rule new_events_extends_with) (rule extends_with_check_peers)
  ultimately have "discovery_event env (Add_Peer h)"
    by (auto simp: list_all_iff)
  then show "status_check env h" and "connect_check env h" by simp_all
qed

theorem admission_requires_both_checks_witness:
  "status_check (node_with 5 8 (remote acceptance)) (PStr ''b'') \<and>
   connect_check (node_with 5 8 (remote acceptance)) (PStr ''b'') \<and>
   Add_Peer (PStr ''b'') \<in> set (new_events (start [PStr ''a''])
      (snd (check_peers_try (node_with 5 8 (remote acceptance)) (start [PStr ''a'']) (PStr ''b'')))) \<and>
   status_check (node_with 5 8 (remote refusal)) (PStr ''b'') \<and>
   \<not> connect_check (node_with 5 8 (remote refusal)) (PStr ''b'') \<and>
   Add_Peer (PStr ''b'') \<notin> set (new_events (start [PStr ''a''])
      (snd (check_peers_try (node_with 5 8 (remote refusal)) (start [PStr ''a'']) (PStr ''b'')))) \<and>
   peers (snd (check_peers_try (node_with 5 8 (remote refusal)) (start [PStr ''a'']) (PStr ''b'')))
     = peers (start [PStr ''a'']) \<and>
   status_check (node_with 5 8 (remote plain_ok)) (PStr ''b'') \<and>
   \<not> connect_check (node_with 5 8 (remote plain_ok)) (PStr ''b'') \<and>
   Add_Peer (PStr ''b'') \<notin> set (new_events (start [PStr ''a''])
      (snd (check_peers_try (node_with 5 8 (remote plain_ok)) (start [PStr ''a'']) (PStr ''b'')))) \<and>
   Add_Peer (PStr ''b'') \<in> set (new_events (start [PStr ''a''])
      (snd (check_peers (node_with 5 8 (remote acceptance)) (start [PStr ''a'']))))"
proof -
  have s1: "status_check (node_with 5 8 (remote acceptance)) (PStr ''b'')"
    by (simp add: status_check_def node_with_def remote_def local_network_def)
  have c1: "connect_check (node_with 5 8 (remote acceptance)) (PStr ''b'')"
    by (simp add: connect_check_def node_with_def remote_def acceptance_def)
  have s2: "status_check (node_with 5 8 (remote refusal)) (PStr ''b'')"
    by (simp add: status_check_def node_with_def remote_def local_network_def)
  have c2: "\<not> connect_check (node_with 5 8 (remote refusal)) (PStr ''b'')"
    by (simp add: connect_check_def node_with_def remote_def refusal_def)
  have s3: "status_check (node_with 5 8 (remote plain_ok)) (PStr ''b'')"
    by (simp add: status_check_def node_with_def remote_def local_network_def)
  have c3: "\<not> connect_check (node_with 5 8 (remote plain_ok)) (PStr ''b'')"
    by (simp add: connect_check_def node_with_def remote_def plain_ok_def)
  have p: "Add_Peer (PStr ''b'') \<in> set (new_events (start [PStr ''a''])
      (snd (check_peers (node_with 5 8 (remote acceptance)) (start [PStr ''a'']))))"
    by code_simp
  show ?thesis
    using s1 c1 s2 c2 s3 c3 p
      admission_requires_both_checks [where env = "node_with 5 8 (remote acceptance)"
        and s = "start [PStr ''a'']" and peer = "PStr ''b''"]
      admission_requires_both_checks [where env = "node_with 5 8 (remote refusal)"
        and s = "start [PStr ''a'']" and peer = "PStr ''b''"]
      admission_requires_both_checks [where env = "node_with 5 8 (remote plain_ok)"
        and s = "start [PStr ''a'']" and peer = "PStr ''b''"]
    by simp
qed

section \<open>The bound on the number of peers\<close>

lemma count_request_nodes:
  "Peers_contract env \<Longrightarrow>
   get_peers_count env (peers (snd (request_nodes env s node port))) \<le> get_peers_count env (peers s)"
  by (auto simp: request_nodes_def requests_get_def peers_record_downtime_def Peers_contract_def
      split: reply.splits payload.splits)

lemma count_find_known_peers_loop:
  "Peers_contract env \<Longrightarrow>
   get_peers_count env (peers (snd (find_known_peers_loop env s known ps)))
     \<le> get_peers_count env (peers s)"
proof (induction ps arbitrary: s known)
  case Nil
  show ?case by simp
next
  case (Cons peer rest)
  show ?case
  proof (cases "request_nodes env s peer (FULL_NODE_PORT env)")
    case (Pair r s1)
    have "get_peers_count env (peers s1) \<le> get_peers_count env (peers s)"
      using count_request_nodes [OF Cons.prems, of s peer "FULL_NODE_PORT env"] Pair by simp
    then show ?thesis
      using Pair Cons.IH [OF Cons.prems, of s1] 
      by (auto split: sum.splits intro: order_trans)
  qed
qed

lemma count_check_peers_try:
  "Peers_contract env \<Longrightarrow>
   get_peers_count env (peers (snd (check_peers_try env s peer)))
     \<le> Suc (get_peers_count env (peers s))"
  by (subst check_peers_try_cases) (simp add: peers_add_peer_def Peers_contract_def)

lemma count_check_peers_loop:
  "Peers_contract env \<Longrightarrow>
   int (get_peers_count env (peers (snd (check_peers_loop env s ps))))
     \<le> max (int (get_peers_count env (peers s))) (MAX_PEERS env)"
proof (induction ps arbitrary: s)
  case Nil
  show ?case by simp
next
  case (Cons peer rest)
  show ?case
  proof (cases "int (get_peers_count env (peers s)) \<ge> MAX_PEERS env")
    case True
    then show ?thesis by simp
  next
    case below: False
    show ?thesis
    proof (cases "py_eq peer (host env)")
      case True
      with below Cons.IH [OF Cons.prems, of s] show ?thesis by simp
    next
      case False
      obtain r s1 where tr: "check_peers_try env s peer = (r, s1)"
        by (cases "check_peers_try env s peer")
      have "get_peers_count env (peers s1) \<le> Suc (get_peers_count env (peers s))"
        using count_check_peers_try [OF Cons.prems, of s peer] tr by simp
      with below have s1: "int (get_peers_count env (peers s1)) \<le> MAX_PEERS env" by simp
      show ?thesis
      proof (cases r)
        case (Inl e)
        with below False tr s1 show ?thesis by simp
      next
        case (Inr u)
        with below False tr s1 Cons.IH [OF Cons.prems, of s1] show ?thesis by simp
      qed
    qed
  qed
qed

lemma length_Peers_record_downtime:
  "length (Peers_record_downtime t h p) \<le> length p"
  by (induction t h p rule: Peers_record_downtime.induct) auto

lemma Peers_contract_node_with: "Peers_contract (node_with lo hi r)"
  by (simp add: Peers_contract_def node_with_def Peers_get_peers_count_def Peers_add_peer_def
        length_Peers_record_downtime)

text \<open>
  C3. Whatever the candidates and their answers, with a registry whose insertion adds at
  most one entry and whose downtime accounting adds none, the admission pass leaves at most
  as many peers as the larger of the count before the pass and \<open>MAX_PEERS\<close>: a registry
  within the maximum stays within it.
\<close>

theorem check_peers_bounded:
  assumes "Peers_contract env"
  shows "int (get_peers_count env (peers (snd (check_peers env s))))
           \<le> max (int (get_peers_count env (peers s))) (MAX_PEERS env) \<and>
         (int (get_peers_count env (peers s)) \<le> MAX_PEERS env \<longrightarrow>
            int (get_peers_count env (peers (snd (check_peers env s)))) \<le> MAX_PEERS env)"
proof -
  have main: "int (get_peers_count env (peers (snd (check_peers env s))))
           \<le> max (int (get_peers_count env (peers s))) (MAX_PEERS env)"
  proof (cases "find_known_peers env s")
    case (Pair r s1)
    have le: "get_peers_count env (peers s1) \<le> get_peers_count env (peers s)"
      using count_find_known_peers_loop [OF assms, of s "get_all_peers env (peers s)"
               "get_all_peers env (peers s)"] Pair
      by (simp add: find_known_peers_def Let_def)
    show ?thesis
    proof (cases r)
      case (Inl e)
      with Pair le show ?thesis by (auto simp: check_peers_def)
    next
      case (Inr known)
      with Pair le count_check_peers_loop [OF assms, of s1 "set_order env known"]
      show ?thesis by (auto simp: check_peers_def)
    qed
  qed
  then show ?thesis by linarith
qed

lemma Peers_contract_uncapped:
  "Peers_contract ((node_with lo hi r)\<lparr>add_peer := Peers_add_peer m\<rparr>)"
  by (simp add: Peers_contract_def node_with_def Peers_get_peers_count_def Peers_add_peer_def
        length_Peers_record_downtime)

text \<open>The guard of the loop at work, with a registry whose own limit (100) is out of reach:
  the node knows \<open>a\<close> and \<open>b\<close>, discovers \<open>c\<close>, which would pass both checks, and
  does not admit it, the maximum being 2.\<close>

theorem check_peers_bounded_witness:
  "Peers_contract ((node_with 5 2 (remote acceptance))\<lparr>add_peer := Peers_add_peer 100\<rparr>) \<and>
   int (get_peers_count ((node_with 5 2 (remote acceptance))\<lparr>add_peer := Peers_add_peer 100\<rparr>)
          (peers (start [PStr ''a'', PStr ''b''])))
     \<le> MAX_PEERS ((node_with 5 2 (remote acceptance))\<lparr>add_peer := Peers_add_peer 100\<rparr>) \<and>
   int (get_peers_count ((node_with 5 2 (remote acceptance))\<lparr>add_peer := Peers_add_peer 100\<rparr>)
          (peers (snd (check_peers
             ((node_with 5 2 (remote acceptance))\<lparr>add_peer := Peers_add_peer 100\<rparr>)
             (start [PStr ''a'', PStr ''b''])))))
     \<le> MAX_PEERS ((node_with 5 2 (remote acceptance))\<lparr>add_peer := Peers_add_peer 100\<rparr>) \<and>
   fst (find_known_peers
          ((node_with 5 2 (remote acceptance))\<lparr>add_peer := Peers_add_peer 100\<rparr>)
          (start [PStr ''a'', PStr ''b'']))
     = Inr [PStr ''a'', PStr ''b'', PStr ''c''] \<and>
   get_all_peers ((node_with 5 2 (remote acceptance))\<lparr>add_peer := Peers_add_peer 100\<rparr>)
     (peers (snd (check_peers
        ((node_with 5 2 (remote acceptance))\<lparr>add_peer := Peers_add_peer 100\<rparr>)
        (start [PStr ''a'', PStr ''b'']))))
     = [PStr ''a'', PStr ''b'']"
proof -
  let ?E = "(node_with 5 2 (remote acceptance))\<lparr>add_peer := Peers_add_peer 100\<rparr>"
  have c: "Peers_contract ?E"
    by (rule Peers_contract_uncapped)
  have b: "int (get_peers_count ?E (peers (start [PStr ''a'', PStr ''b'']))) \<le> MAX_PEERS ?E"
    by (simp add: node_with_def start_def Peers_get_peers_count_def)
  have k: "fst (find_known_peers ?E (start [PStr ''a'', PStr ''b'']))
             = Inr [PStr ''a'', PStr ''b'', PStr ''c'']"
    by code_simp
  have e: "get_all_peers ?E (peers (snd (check_peers ?E (start [PStr ''a'', PStr ''b'']))))
             = [PStr ''a'', PStr ''b'']"
    by code_simp
  from check_peers_bounded [OF c, of "start [PStr ''a'', PStr ''b'']"] b c k e
  show ?thesis by blast
qed

section \<open>A second admission pass\<close>

lemma peers_request_nodes:
  "\<not> caught (http env (GET (Url NODES_URL [node, port]))) \<Longrightarrow>
     peers (snd (request_nodes env s node port)) = peers s"
  by (auto simp: request_nodes_def requests_get_def split: reply.splits payload.splits)

lemma peers_find_known_peers_loop:
  "list_all (\<lambda>p. \<not> caught (http env (GET (Url NODES_URL [p, FULL_NODE_PORT env])))) ps \<Longrightarrow>
     peers (snd (find_known_peers_loop env s known ps)) = peers s"
proof (induction ps arbitrary: s known)
  case Nil
  show ?case by simp
next
  case (Cons peer rest)
  obtain r s1 where rn: "request_nodes env s peer (FULL_NODE_PORT env) = (r, s1)"
    by (cases "request_nodes env s peer (FULL_NODE_PORT env)")
  have s1: "peers s1 = peers s"
    using peers_request_nodes [of env peer "FULL_NODE_PORT env" s] Cons.prems rn by simp
  have rest: "list_all (\<lambda>p. \<not> caught (http env (GET (Url NODES_URL [p, FULL_NODE_PORT env])))) rest"
    using Cons.prems by simp
  show ?case
    using rn s1 Cons.IH [OF rest, of s1]
    by (auto split: sum.splits)
qed

lemma peers_find_known_peers:
  "lists_answered env s \<Longrightarrow> peers (snd (find_known_peers env s)) = peers s"
  by (simp add: lists_answered_def find_known_peers_def Let_def peers_find_known_peers_loop)

lemma peers_check_peers_try:
  "peers (snd (check_peers_try env s peer)) =
     (if status_check env peer \<and> connect_check env peer
      then add_peer env peer (peers s) else peers s)"
  by (subst check_peers_try_cases) (simp add: peers_add_peer_def)

lemma add_event_check_peers_try:
  "Add_Peer peer \<in> set (new_events s (snd (check_peers_try env s peer)))
      \<longleftrightarrow> status_check env peer \<and> connect_check env peer"
  by (subst check_peers_try_cases) (simp add: peers_add_peer_def)

text \<open>A loop over candidates of which the admissible ones are enumerated already changes
  neither the enumeration nor the count.\<close>

lemma check_peers_loop_nothing_new:
  assumes key: "Peers_unique_key env"
  shows "list_all (\<lambda>c. admissible env c \<longrightarrow> py_mem c (get_all_peers env (peers s))) cands \<Longrightarrow>
     get_all_peers env (peers (snd (check_peers_loop env s cands))) = get_all_peers env (peers s) \<and>
     get_peers_count env (peers (snd (check_peers_loop env s cands))) = get_peers_count env (peers s)"
proof (induction cands arbitrary: s)
  case Nil
  show ?case by simp
next
  case (Cons peer rest)
  have rest: "list_all (\<lambda>c. admissible env c \<longrightarrow> py_mem c (get_all_peers env (peers s))) rest"
    using Cons.prems by simp
  show ?case
  proof (cases "int (get_peers_count env (peers s)) \<ge> MAX_PEERS env")
    case True
    then show ?thesis by simp
  next
    case below: False
    show ?thesis
    proof (cases "py_eq peer (host env)")
      case True
      with below Cons.IH [OF rest] show ?thesis by simp
    next
      case False
      obtain r s1 where tr: "check_peers_try env s peer = (r, s1)"
        by (cases "check_peers_try env s peer")
      have p1: "peers s1 = (if status_check env peer \<and> connect_check env peer
                            then add_peer env peer (peers s) else peers s)"
        using tr peers_check_peers_try [of env s peer] by simp
      have same: "get_all_peers env (peers s1) = get_all_peers env (peers s) \<and>
                  get_peers_count env (peers s1) = get_peers_count env (peers s)"
      proof (cases "status_check env peer \<and> connect_check env peer")
        case True
        with False have "admissible env peer" by (simp add: admissible_def)
        with Cons.prems have "py_mem peer (get_all_peers env (peers s))" by simp
        with key True p1 show ?thesis by (simp add: Peers_unique_key_def)
      next
        case False
        with p1 show ?thesis by auto
      qed
      have rest1: "list_all (\<lambda>c. admissible env c \<longrightarrow> py_mem c (get_all_peers env (peers s1))) rest"
        using rest same by simp
      show ?thesis
      proof (cases r)
        case (Inl e)
        with below False tr same show ?thesis by simp
      next
        case (Inr u)
        with below False tr same Cons.IH [OF rest1] show ?thesis by simp
      qed
    qed
  qed
qed

text \<open>Whatever the candidates, the loop removes no address, and an address it adds is that
  of a candidate it has admitted.\<close>

lemma check_peers_loop_grows:
  assumes key: "Peers_unique_key env"
  shows "set (get_all_peers env (peers s)) \<subseteq> set (get_all_peers env (peers (snd (check_peers_loop env s cands)))) \<and>
     (\<forall>h \<in> set (get_all_peers env (peers (snd (check_peers_loop env s cands)))).
        h \<in> set (get_all_peers env (peers s)) \<or>
        Add_Peer h \<in> set (new_events s (snd (check_peers_loop env s cands))))"
proof (induction cands arbitrary: s)
  case Nil
  show ?case by simp
next
  case (Cons peer rest)
  show ?case
  proof (cases "int (get_peers_count env (peers s)) \<ge> MAX_PEERS env")
    case True
    then show ?thesis by simp
  next
    case below: False
    show ?thesis
    proof (cases "py_eq peer (host env)")
      case True
      with below Cons.IH [of s] show ?thesis by simp
    next
      case False
      obtain r s1 where tr: "check_peers_try env s peer = (r, s1)"
        by (cases "check_peers_try env s peer")
      have ext1: "extends_with (discovery_event env) s s1"
        using extends_with_check_peers_try [of env s peer] tr by simp
      have p1: "peers s1 = (if status_check env peer \<and> connect_check env peer
                            then add_peer env peer (peers s) else peers s)"
        using tr peers_check_peers_try [of env s peer] by simp
      have ev1: "status_check env peer \<and> connect_check env peer \<Longrightarrow>
                   Add_Peer peer \<in> set (new_events s s1)"
        using tr add_event_check_peers_try [of peer s env] by simp
      have sub1: "set (get_all_peers env (peers s)) \<subseteq> set (get_all_peers env (peers s1))"
        using p1 key by (auto simp: Peers_unique_key_def)
      have new1: "\<forall>h \<in> set (get_all_peers env (peers s1)).
                    h \<in> set (get_all_peers env (peers s)) \<or> Add_Peer h \<in> set (new_events s s1)"
      proof (cases "status_check env peer \<and> connect_check env peer")
        case True
        have "set (get_all_peers env (add_peer env peer (peers s)))
                \<subseteq> insert peer (set (get_all_peers env (peers s)))"
          using key by (simp add: Peers_unique_key_def)
        with True p1 ev1 show ?thesis by auto
      next
        case False
        with p1 show ?thesis by auto
      qed
      show ?thesis
      proof (cases r)
        case (Inl e)
        with below False tr sub1 new1 show ?thesis by simp
      next
        case (Inr u)
        let ?s' = "snd (check_peers_loop env s1 rest)"
        have ext2: "extends_with (discovery_event env) s1 ?s'"
          by (rule extends_with_check_peers_loop)
        have ev: "new_events s ?s' = new_events s s1 @ new_events s1 ?s'"
          using ext1 ext2 by (rule new_events_trans)
        have res: "snd (check_peers_loop env s (peer # rest)) = ?s'"
          using below False tr Inr by simp
        from Cons.IH [of s1] sub1 new1 ev show ?thesis
          unfolding res by auto
      qed
    qed
  qed
qed

lemma Peers_unique_key_node_with: "Peers_unique_key (node_with lo hi r)"
  by (auto simp: Peers_unique_key_def node_with_def Peers_get_peers_count_def
        Peers_get_all_peers_def Peers_add_peer_def)

lemma check_peers_grows:
  assumes key: "Peers_unique_key env" and ans: "lists_answered env s"
  shows "set (get_all_peers env (peers s)) \<subseteq> set (get_all_peers env (peers (snd (check_peers env s)))) \<and>
     (\<forall>h \<in> set (get_all_peers env (peers (snd (check_peers env s)))).
        h \<in> set (get_all_peers env (peers s)) \<or>
        (Add_Peer h \<in> set (new_events s (snd (check_peers env s))) \<and>
         status_check env h \<and> connect_check env h))"
proof -
  let ?s' = "snd (check_peers env s)"
  have all: "list_all (discovery_event env) (new_events s ?s')"
    by (rule new_events_extends_with) (rule extends_with_check_peers)
  have checked: "status_check env h \<and> connect_check env h"
    if "Add_Peer h \<in> set (new_events s ?s')" for h
  proof -
    from that all have "discovery_event env (Add_Peer h)" by (auto simp: list_all_iff)
    then show ?thesis by simp
  qed
  have grows: "set (get_all_peers env (peers s)) \<subseteq> set (get_all_peers env (peers ?s')) \<and>
     (\<forall>h \<in> set (get_all_peers env (peers ?s')).
        h \<in> set (get_all_peers env (peers s)) \<or> Add_Peer h \<in> set (new_events s ?s'))"
  proof (cases "int (get_peers_count env (peers s)) < MIN_PEERS env")
    case False
    then show ?thesis by (simp add: check_peers_def)
  next
    case True
    obtain r s1 where fk: "find_known_peers env s = (r, s1)"
      by (cases "find_known_peers env s")
    have p1: "peers s1 = peers s"
      using peers_find_known_peers [OF ans] fk by simp
    have ext1: "extends_with (discovery_event env) s s1"
      using extends_with_find_known_peers [of env s] fk by simp
    show ?thesis
    proof (cases r)
      case (Inl e)
      with True fk p1 show ?thesis by (simp add: check_peers_def)
    next
      case (Inr known)
      let ?t = "snd (check_peers_loop env s1 (set_order env known))"
      have res: "?s' = ?t"
        using True fk Inr by (simp add: check_peers_def)
      have ext2: "extends_with (discovery_event env) s1 ?t"
        by (rule extends_with_check_peers_loop)
      have ev: "new_events s ?t = new_events s s1 @ new_events s1 ?t"
        using ext1 ext2 by (rule new_events_trans)
      from check_peers_loop_grows [OF key, of s1 "set_order env known"] p1 ev
      show ?thesis unfolding res by auto
    qed
  qed
  with checked show ?thesis by blast
qed

lemma check_peers_nothing_new:
  assumes key: "Peers_unique_key env" and ans: "lists_answered env s"
    and new: "nothing_new env s"
  shows "get_all_peers env (peers (snd (check_peers env s))) = get_all_peers env (peers s) \<and>
     get_peers_count env (peers (snd (check_peers env s))) = get_peers_count env (peers s)"
proof (cases "int (get_peers_count env (peers s)) < MIN_PEERS env")
  case False
  then show ?thesis by (simp add: check_peers_def)
next
  case True
  obtain r s1 where fk: "find_known_peers env s = (r, s1)"
    by (cases "find_known_peers env s")
  have p1: "peers s1 = peers s"
    using peers_find_known_peers [OF ans] fk by simp
  show ?thesis
  proof (cases r)
    case (Inl e)
    with True fk p1 show ?thesis by (simp add: check_peers_def)
  next
    case (Inr known)
    have "list_all (\<lambda>c. admissible env c \<longrightarrow> py_mem c (get_all_peers env (peers s1)))
            (set_order env known)"
      using new fk Inr p1 by (simp add: nothing_new_def)
    from check_peers_loop_nothing_new [OF key this] True fk Inr p1
    show ?thesis by (simp add: check_peers_def)
  qed
qed

lemma check_peers_enough:
  "MIN_PEERS env \<le> int (get_peers_count env (peers s)) \<Longrightarrow> check_peers env s = (Inr (), s)"
  by (simp add: check_peers_def)

text \<open>
  C8, as stated: with the answers of the remote peers fixed, a second pass leaves the peer
  set as the first left it. It does not when the peers admitted by the first pass report
  peers that the first pass could not know: the second pass asks them for their peer lists
  and admits what they report. Starting from \<open>a\<close>, the first pass admits \<open>b\<close> and the
  second admits \<open>c\<close>.
\<close>

theorem check_peers_second_run_counterexample:
  "get_all_peers (node_with 5 8 (remote acceptance))
     (peers (snd (check_peers (node_with 5 8 (remote acceptance)) (start [PStr ''a'']))))
     = [PStr ''a'', PStr ''b''] \<and>
   get_all_peers (node_with 5 8 (remote acceptance))
     (peers (snd (check_peers (node_with 5 8 (remote acceptance))
        (snd (check_peers (node_with 5 8 (remote acceptance)) (start [PStr ''a'']))))))
     = [PStr ''a'', PStr ''b'', PStr ''c''] \<and>
   peers (snd (check_peers (node_with 5 8 (remote acceptance))
        (snd (check_peers (node_with 5 8 (remote acceptance)) (start [PStr ''a''])))))
     \<noteq> peers (snd (check_peers (node_with 5 8 (remote acceptance)) (start [PStr ''a''])))"
  by code_simp

text \<open>
  C8, amended. Let the answers of the remote peers be fixed, the address be the key of the
  registry, and a second pass follow a first one. When every peer of the registry answers
  the request for its peer list (so that no downtime is recorded), the second pass removes
  no address, and an address it adds is that of a candidate it admitted after both checks.
  When moreover it learns of no admissible candidate outside the registry, it leaves the
  enumeration and the count of the registry exactly as the first pass left them: nothing is
  added twice and nothing is removed. When the first pass leaves at least \<open>MIN_PEERS\<close>
  peers, the second pass does nothing at all.
\<close>

theorem check_peers_second_run:
  assumes "Peers_unique_key env"
    and "s1 = snd (check_peers env s)"
    and "s2 = snd (check_peers env s1)"
  shows "(lists_answered env s1 \<longrightarrow>
            set (get_all_peers env (peers s1)) \<subseteq> set (get_all_peers env (peers s2)) \<and>
            (\<forall>h \<in> set (get_all_peers env (peers s2)).
               h \<in> set (get_all_peers env (peers s1)) \<or>
               (Add_Peer h \<in> set (new_events s1 s2) \<and>
                status_check env h \<and> connect_check env h))) \<and>
         (lists_answered env s1 \<and> nothing_new env s1 \<longrightarrow>
            get_all_peers env (peers s2) = get_all_peers env (peers s1) \<and>
            get_peers_count env (peers s2) = get_peers_count env (peers s1)) \<and>
         (MIN_PEERS env \<le> int (get_peers_count env (peers s1)) \<longrightarrow>
            check_peers env s1 = (Inr (), s1))"
  using check_peers_grows [OF assms(1), of s1] check_peers_nothing_new [OF assms(1), of s1]
    check_peers_enough [of env s1]
  unfolding assms(3) by blast

theorem check_peers_second_run_witness:
  "Peers_unique_key (node_with 5 8 closed_pair) \<and>
   lists_answered (node_with 5 8 closed_pair)
     (snd (check_peers (node_with 5 8 closed_pair) (start [PStr ''a'']))) \<and>
   nothing_new (node_with 5 8 closed_pair)
     (snd (check_peers (node_with 5 8 closed_pair) (start [PStr ''a'']))) \<and>
   get_all_peers (node_with 5 8 closed_pair)
     (peers (snd (check_peers (node_with 5 8 closed_pair) (start [PStr ''a'']))))
     = [PStr ''a'', PStr ''b''] \<and>
   int (get_peers_count (node_with 5 8 closed_pair)
     (peers (snd (check_peers (node_with 5 8 closed_pair) (start [PStr ''a''])))))
     < MIN_PEERS (node_with 5 8 closed_pair) \<and>
   get_all_peers (node_with 5 8 closed_pair)
     (peers (snd (check_peers (node_with 5 8 closed_pair)
        (snd (check_peers (node_with 5 8 closed_pair) (start [PStr ''a'']))))))
     = get_all_peers (node_with 5 8 closed_pair)
         (peers (snd (check_peers (node_with 5 8 closed_pair) (start [PStr ''a''])))) \<and>
   get_peers_count (node_with 5 8 closed_pair)
     (peers (snd (check_peers (node_with 5 8 closed_pair)
        (snd (check_peers (node_with 5 8 closed_pair) (start [PStr ''a'']))))))
     = get_peers_count (node_with 5 8 closed_pair)
         (peers (snd (check_peers (node_with 5 8 closed_pair) (start [PStr ''a''])))) \<and>
   Http (GET (Url NODES_URL [PStr ''b'', PInt 8080]))
     \<in> set (new_events (snd (check_peers (node_with 5 8 closed_pair) (start [PStr ''a''])))
         (snd (check_peers (node_with 5 8 closed_pair)
            (snd (check_peers (node_with 5 8 closed_pair) (start [PStr ''a''])))))) \<and>
   MIN_PEERS (node_with 2 8 (remote acceptance))
     \<le> int (get_peers_count (node_with 2 8 (remote acceptance))
           (peers (snd (check_peers (node_with 2 8 (remote acceptance)) (start [PStr ''a'']))))) \<and>
   check_peers (node_with 2 8 (remote acceptance))
       (snd (check_peers (node_with 2 8 (remote acceptance)) (start [PStr ''a''])))
     = (Inr (), snd (check_peers (node_with 2 8 (remote acceptance)) (start [PStr ''a''])))"
proof -
  let ?E = "node_with 5 8 closed_pair"
  let ?s1 = "snd (check_peers ?E (start [PStr ''a'']))"
  let ?F = "node_with 2 8 (remote acceptance)"
  let ?t1 = "snd (check_peers ?F (start [PStr ''a'']))"
  have k: "Peers_unique_key ?E" by (rule Peers_unique_key_node_with)
  have kF: "Peers_unique_key ?F" by (rule Peers_unique_key_node_with)
  have a: "lists_answered ?E ?s1" by code_simp
  have n: "nothing_new ?E ?s1" by code_simp
  have e: "get_all_peers ?E (peers ?s1) = [PStr ''a'', PStr ''b'']" by code_simp
  have b: "int (get_peers_count ?E (peers ?s1)) < MIN_PEERS ?E" by code_simp
  have r: "Http (GET (Url NODES_URL [PStr ''b'', PInt 8080]))
     \<in> set (new_events ?s1 (snd (check_peers ?E ?s1)))" by code_simp
  have m: "MIN_PEERS ?F \<le> int (get_peers_count ?F (peers ?t1))" by code_simp
  from check_peers_second_run [OF k refl refl, of "start [PStr ''a'']"] a n
  have same: "get_all_peers ?E (peers (snd (check_peers ?E ?s1))) = get_all_peers ?E (peers ?s1) \<and>
     get_peers_count ?E (peers (snd (check_peers ?E ?s1))) = get_peers_count ?E (peers ?s1)"
    by blast
  from check_peers_second_run [OF kF refl refl, of "start [PStr ''a'']"] m
  have noop: "check_peers ?F ?t1 = (Inr (), ?t1)" by blast
  from k a n e b r m same noop show ?thesis by blast
qed

section \<open>Broadcasting a transaction\<close>

lemma broadcast_transaction_loop_first_response:
  "http env (POST (Url TRANSACTIONS_URL [node, FULL_NODE_PORT env, PStr '''']) body)
      = Response status_code b \<Longrightarrow>
   broadcast_transaction_loop env s body (node # rest) =
     (Inr (Some (Response status_code b)),
      emit (Http (POST (Url TRANSACTIONS_URL [node, FULL_NODE_PORT env, PStr '''']) body)) s)"
  by (simp add: requests_post_def)

text \<open>
  C6. \<open>broadcast_transaction\<close> is claimed to post the transaction to every peer. With the
  peers \<open>a\<close> and \<open>b\<close>, both of which answer, it posts to \<open>a\<close> alone and returns her
  response, while \<open>broadcast_block_inv\<close> posts to both.
\<close>

theorem broadcast_transaction_first_peer_only:
  "get_all_peers (node_with 1 8 (remote acceptance)) (peers (start [PStr ''a'', PStr ''b'']))
     = [PStr ''a'', PStr ''b''] \<and>
   http (node_with 1 8 (remote acceptance))
      (POST (Url TRANSACTIONS_URL [PStr ''b'', PInt 8080, PStr ''''])
         (PDict [(''transaction'', sample_tx_dict)]))
     = Response 200 (Payload (PDict [(''success'', PBool True)])) \<and>
   requests_of (new_events (start [PStr ''a'', PStr ''b''])
      (snd (broadcast_transaction (node_with 1 8 (remote acceptance))
              (start [PStr ''a'', PStr ''b'']) sample_tx_dict)))
     = [POST (Url TRANSACTIONS_URL [PStr ''a'', PInt 8080, PStr ''''])
          (PDict [(''transaction'', sample_tx_dict)])] \<and>
   requests_of (new_events (start [PStr ''a'', PStr ''b''])
      (snd (broadcast_block_inv (node_with 1 8 (remote acceptance))
              (start [PStr ''a'', PStr ''b'']) (PStr ''h''))))
     = [POST (Url INBOX_URL [PStr ''a'', PInt 8080]) (PDict [(''block_hashes'', PStr ''h'')]),
        POST (Url INBOX_URL [PStr ''b'', PInt 8080]) (PDict [(''block_hashes'', PStr ''h'')])]"
  by code_simp

section \<open>The order of a commit in the mining loop\<close>

lemma requests_of_append [simp]: "requests_of (xs @ ys) = requests_of xs @ requests_of ys"
  by (induction xs rule: requests_of.induct) auto

lemma broadcast_inbox_loop_trace:
  "\<exists>es. trace (broadcast_inbox_loop env s body nodes) = trace s @ es \<and>
        requests_of es = map (\<lambda>node. POST (Url INBOX_URL [node, FULL_NODE_PORT env]) body) nodes \<and>
        list_all (broadcast_event env body) es"
proof (induction nodes arbitrary: s)
  case Nil
  show ?case by simp
next
  case (Cons node rest)
  let ?r = "POST (Url INBOX_URL [node, FULL_NODE_PORT env]) body"
  have post: "broadcast_event env body (Http ?r)"
    by (simp add: broadcast_event_def)
  show ?case
  proof (cases "http env ?r")
    case RequestException
    obtain es where es: "trace (broadcast_inbox_loop env (peers_record_downtime env node (emit (Http ?r) s)) body rest)
        = trace (peers_record_downtime env node (emit (Http ?r) s)) @ es"
      "requests_of es = map (\<lambda>node. POST (Url INBOX_URL [node, FULL_NODE_PORT env]) body) rest"
      "list_all (broadcast_event env body) es"
      using Cons.IH by blast
    have "broadcast_event env body (Record_Downtime node)"
      by (simp add: broadcast_event_def)
    with post show ?thesis
      using RequestException es
      by (intro exI [of _ "Http ?r # Record_Downtime node # es"])
         (simp add: requests_post_def peers_record_downtime_def)
  next
    case (Response c b)
    obtain es where es: "trace (broadcast_inbox_loop env (emit (Http ?r) s) body rest)
        = trace (emit (Http ?r) s) @ es"
      "requests_of es = map (\<lambda>node. POST (Url INBOX_URL [node, FULL_NODE_PORT env]) body) rest"
      "list_all (broadcast_event env body) es"
      using Cons.IH by blast
    show ?thesis
      using Response es post
      by (intro exI [of _ "Http ?r # es"]) (simp add: requests_post_def)
  qed
qed

lemma extends_with_broadcast_inbox_loop:
  "extends_with (broadcast_event env body) s (broadcast_inbox_loop env s body nodes)"
  using broadcast_inbox_loop_trace [of env s body nodes] by (auto simp: extends_with_iff)

lemma requests_broadcast_inbox_loop:
  "requests_of (new_events s (broadcast_inbox_loop env s body nodes)) =
     map (\<lambda>node. POST (Url INBOX_URL [node, FULL_NODE_PORT env]) body) nodes"
  using broadcast_inbox_loop_trace [of env s body nodes] by auto

lemma extends_with_broadcast_block_inv:
  "extends_with (broadcast_event env (PDict [(''block_hashes'', h)])) s
     (snd (broadcast_block_inv env s h))"
proof (cases "check_peers env s")
  case (Pair r s1)
  have "extends_with (discovery_event env) s s1"
    using extends_with_check_peers [of env s] Pair by simp
  then have "extends_with (broadcast_event env (PDict [(''block_hashes'', h)])) s s1"
    by (rule extends_with_mono) (simp add: broadcast_event_def)
  then show ?thesis
    using Pair extends_with_broadcast_inbox_loop [of env "PDict [(''block_hashes'', h)]" s1]
    by (auto simp: broadcast_block_inv_def split: sum.splits intro: extends_with_trans)
qed

lemma broadcast_block_inv_raises:
  "fst (check_peers env s) = Inl e \<Longrightarrow>
     broadcast_block_inv env s h = (Inl e, snd (check_peers env s))"
  by (cases "check_peers env s") (simp add: broadcast_block_inv_def)

lemma broadcast_block_inv_posts:
  "fst (check_peers env s) = Inr () \<Longrightarrow>
     fst (broadcast_block_inv env s h) = Inr () \<and>
     requests_of (new_events (snd (check_peers env s)) (snd (broadcast_block_inv env s h))) =
       map (\<lambda>node. POST (Url INBOX_URL [node, FULL_NODE_PORT env]) (PDict [(''block_hashes'', h)]))
         (get_all_peers env (peers (snd (check_peers env s))))"
  by (cases "check_peers env s")
     (simp add: broadcast_block_inv_def requests_broadcast_inbox_loop)

lemma new_events_emit2:
  "extends_with P (emit e2 (emit e1 s)) s' \<Longrightarrow>
     new_events s s' = e1 # e2 # new_events (emit e2 (emit e1 s)) s'"
  by (auto simp: extends_with_iff)

text \<open>Events of a broadcast are neither commits nor removals.\<close>

lemma broadcast_event_cases:
  "broadcast_event env body e \<Longrightarrow>
     (\<exists>r. e = Http r) \<or> (\<exists>h. e = Add_Peer h) \<or> (\<exists>h. e = Record_Downtime h)"
  by (cases e) (simp_all add: broadcast_event_def)

lemma order_from_broadcast:
  "list_all (broadcast_event env body) es \<Longrightarrow> order_from True (es @ rest) = order_from True rest"
proof (induction es)
  case Nil
  show ?case by simp
next
  case (Cons e es)
  then have "broadcast_event env body e" by simp
  from broadcast_event_cases [OF this] Cons show ?case by auto
qed

lemma commits_broadcast:
  "list_all (broadcast_event env body) es \<Longrightarrow> commits es = []"
proof (induction es)
  case Nil
  show ?case by simp
next
  case (Cons e es)
  then have "broadcast_event env body e" by simp
  from broadcast_event_cases [OF this] Cons show ?case by auto
qed

lemma commits_append [simp]: "commits (xs @ ys) = commits xs @ commits ys"
  by (induction xs rule: commits.induct) auto

lemma attempted_Cons: "attempted (a # rest) = attempted [a] @ attempted rest"
proof (cases a)
  case (Pair blk ok)
  then show ?thesis by (cases blk) auto
qed

lemma order_from_commit_led: "commit_led es \<Longrightarrow> order_from x es = order_from y es"
  by (cases es rule: commit_led.cases) (auto elim: order_from.elims)

text \<open>The events of one iteration: none, a rejected commit, or an accepted commit with its
  removal and the events of the broadcast.\<close>

lemma mine_iteration_segment:
  "\<exists>seg. trace (snd (mine_iteration env s a)) = trace s @ seg \<and>
         commits seg = attempted [a] \<and>
         (\<forall>rest. commit_led rest \<longrightarrow>
            order_from False (seg @ rest) = order_from False rest \<and> commit_led (seg @ rest))"
proof (cases a)
  case (Pair blk ok)
  show ?thesis
  proof (cases blk)
    case None
    with Pair show ?thesis by (simp add: mine_iteration_def)
  next
    case (Some b)
    show ?thesis
    proof (cases ok)
      case False
      with Pair Some show ?thesis by (simp add: mine_iteration_def)
    next
      case True
      let ?s2 = "emit (Remove_Unconfirmed (drop 1 (transactions b))) (emit (Add_Block b True) s)"
      let ?body = "PDict [(''block_hashes'', block_header_hash b)]"
      obtain es where es:
        "trace (snd (broadcast_block_inv env ?s2 (block_header_hash b))) = trace ?s2 @ es"
        "list_all (broadcast_event env ?body) es"
        using extends_with_broadcast_block_inv [of env "block_header_hash b" ?s2]
        by (auto simp: extends_with_iff)
      let ?seg = "Add_Block b True # Remove_Unconfirmed (drop 1 (transactions b)) # es"
      have t: "trace (snd (mine_iteration env s a)) = trace s @ ?seg"
        using es(1) Pair Some True by (simp add: mine_iteration_def)
      have c: "commits ?seg = attempted [a]"
        using commits_broadcast [OF es(2)] Pair Some True by simp
      have o: "order_from False (?seg @ rest) = order_from False rest \<and> commit_led (?seg @ rest)"
        if "commit_led rest" for rest
        using order_from_broadcast [OF es(2), of rest] order_from_commit_led [OF that, of True False]
        by simp
      from t c o show ?thesis by blast
    qed
  qed
qed

lemma mine_trace:
  "\<exists>es. trace (snd (mine env s attempts)) = trace s @ es \<and>
        order_from False es \<and> commit_led es \<and>
        (\<exists>n \<le> length attempts. commits es = attempted (take n attempts)) \<and>
        (fst (mine env s attempts) = Inr () \<longrightarrow> commits es = attempted attempts)"
proof (induction attempts arbitrary: s)
  case Nil
  show ?case by simp
next
  case (Cons a rest)
  obtain r s1 where it: "mine_iteration env s a = (r, s1)"
    by (cases "mine_iteration env s a")
  obtain seg where seg: "trace s1 = trace s @ seg" "commits seg = attempted [a]"
    "\<And>xs. commit_led xs \<Longrightarrow>
        order_from False (seg @ xs) = order_from False xs \<and> commit_led (seg @ xs)"
    using mine_iteration_segment [of env s a] it by auto
  show ?case
  proof (cases r)
    case (Inl e)
    have res: "mine env s (a # rest) = (Inl e, s1)"
      using it Inl by simp
    have o: "order_from False seg" "commit_led seg"
      using seg(3) [of "[]"] by simp_all
    have n: "commits seg = attempted (take 1 (a # rest))"
      using seg(2) by simp
    have "\<exists>n \<le> length (a # rest). commits seg = attempted (take n (a # rest))"
      using n by (intro exI [of _ 1]) simp
    with seg(1) o show ?thesis
      unfolding res by (intro exI [of _ seg]) simp
  next
    case (Inr u)
    have res: "mine env s (a # rest) = mine env s1 rest"
      using it Inr by simp
    obtain es n where es: "trace (snd (mine env s1 rest)) = trace s1 @ es"
      "order_from False es" "commit_led es"
      "n \<le> length rest" "commits es = attempted (take n rest)"
      "fst (mine env s1 rest) = Inr () \<longrightarrow> commits es = attempted rest"
      using Cons.IH [of s1] by auto
    have t: "trace (snd (mine env s1 rest)) = trace s @ (seg @ es)"
      using seg(1) es(1) by simp
    have o: "order_from False (seg @ es)" "commit_led (seg @ es)"
      using seg(3) [OF es(3)] es(2) by simp_all
    have p: "commits (seg @ es) = attempted (take (Suc n) (a # rest))"
      using seg(2) es(5) attempted_Cons [of a "take n rest"] by simp
    have f: "fst (mine env s1 rest) = Inr () \<longrightarrow> commits (seg @ es) = attempted (a # rest)"
      using seg(2) es(6) attempted_Cons [of a rest] by simp
    have "\<exists>n \<le> length (a # rest). commits (seg @ es) = attempted (take n (a # rest))"
      using p es(4) by (intro exI [of _ "Suc n"]) simp
    with t o f show ?thesis
      unfolding res by (intro exI [of _ "seg @ es"]) simp
  qed
qed

text \<open>
  C1, as stated: whenever the block is accepted, the node removes its transactions from the
  mempool and then issues the broadcast of its hash. With the peer \<open>a\<close> in the registry and
  fewer peers than \<open>MIN_PEERS\<close>, the broadcast starts with the discovery of peers; \<open>a\<close>
  answers the request for its peer list with an object without \<open>full_nodes\<close>, the lookup
  raises \<open>KeyError\<close>, and the exception leaves the loop after the removal: nothing is
  posted to the inbox of \<open>a\<close>.
\<close>

theorem mine_broadcast_counterexample:
  "get_all_peers (node_with 5 8 listless) (peers (start [PStr ''a''])) = [PStr ''a''] \<and>
   fst (mine_iteration (node_with 5 8 listless) (start [PStr ''a'']) (Some sample_block, True))
     = Inl (KeyError ''full_nodes'') \<and>
   new_events (start [PStr ''a''])
      (snd (mine_iteration (node_with 5 8 listless) (start [PStr ''a''])
              (Some sample_block, True)))
     = [Add_Block sample_block True,
        Remove_Unconfirmed [tx_of ''t1'', tx_of ''t2''],
        Http (GET (Url NODES_URL [PStr ''a'', PInt 8080]))]"
  by code_simp

text \<open>
  C1, amended. In an iteration of the mining loop whose block is accepted by \<open>add_block\<close>,
  the node first removes from the mempool the transactions of the block but the one at
  position zero, and only then runs \<open>broadcast_block_inv\<close> with the hash of the block: the
  two events come first and in this order, and every later event of the iteration is an
  event of the refresh of the peers or a post of the hash to an inbox. When the refresh
  returns, the hash is posted to the inbox of every peer of the registry, in order; when the
  refresh raises, the exception leaves the iteration and nothing is posted. In an iteration
  whose block is rejected the only event is the call of \<open>add_block\<close>; an attempt that found
  no block has no event. Over the whole loop the trace keeps the order of commits, its
  calls of \<open>add_block\<close> are those of the attempts made, in order, and all of them when the
  loop ends without an exception. The loop runs the iterations one after the other: it ends
  with the exception of the first iteration that raises, and goes on with the next attempt
  otherwise.
\<close>

theorem mine_commit_order:
  "(let s2 = emit (Remove_Unconfirmed (drop 1 (transactions b))) (emit (Add_Block b True) s);
        s' = snd (mine_iteration env s (Some b, True))
    in mine_iteration env s (Some b, True) = broadcast_block_inv env s2 (block_header_hash b) \<and>
       new_events s s' =
         Add_Block b True # Remove_Unconfirmed (drop 1 (transactions b)) # new_events s2 s' \<and>
       list_all (broadcast_event env (PDict [(''block_hashes'', block_header_hash b)]))
         (new_events s2 s') \<and>
       (fst (check_peers env s2) = Inr () \<longrightarrow>
          fst (mine_iteration env s (Some b, True)) = Inr () \<and>
          requests_of (new_events (snd (check_peers env s2)) s') =
            map (\<lambda>node. POST (Url INBOX_URL [node, FULL_NODE_PORT env])
                           (PDict [(''block_hashes'', block_header_hash b)]))
              (get_all_peers env (peers (snd (check_peers env s2))))) \<and>
       (\<forall>e. fst (check_peers env s2) = Inl e \<longrightarrow>
          mine_iteration env s (Some b, True) = (Inl e, snd (check_peers env s2)) \<and>
          list_all (discovery_event env) (new_events s2 s'))) \<and>
   mine_iteration env s (Some b, False) = (Inr (), emit (Add_Block b False) s) \<and>
   mine_iteration env s (None, ok) = (Inr (), s) \<and>
   commit_order (new_events s (snd (mine env s attempts))) \<and>
   (\<exists>n \<le> length attempts.
      commits (new_events s (snd (mine env s attempts))) = attempted (take n attempts)) \<and>
   (fst (mine env s attempts) = Inr () \<longrightarrow>
      commits (new_events s (snd (mine env s attempts))) = attempted attempts) \<and>
   mine env s [] = (Inr (), s) \<and>
   (\<forall>e. fst (mine_iteration env s a) = Inl e \<longrightarrow>
      mine env s (a # rest) = mine_iteration env s a) \<and>
   (fst (mine_iteration env s a) = Inr () \<longrightarrow>
      mine env s (a # rest) = mine env (snd (mine_iteration env s a)) rest)"
proof -
  let ?s2 = "emit (Remove_Unconfirmed (drop 1 (transactions b))) (emit (Add_Block b True) s)"
  let ?s' = "snd (mine_iteration env s (Some b, True))"
  let ?body = "PDict [(''block_hashes'', block_header_hash b)]"
  have eq: "mine_iteration env s (Some b, True) = broadcast_block_inv env ?s2 (block_header_hash b)"
    by (simp add: mine_iteration_def)
  have ext: "extends_with (broadcast_event env ?body) ?s2 ?s'"
    unfolding eq by (rule extends_with_broadcast_block_inv)
  have ev: "new_events s ?s' =
         Add_Block b True # Remove_Unconfirmed (drop 1 (transactions b)) # new_events ?s2 ?s'"
    using ext by (rule new_events_emit2)
  have adm: "list_all (broadcast_event env ?body) (new_events ?s2 ?s')"
    using ext by (rule new_events_extends_with)
  have posts: "fst (mine_iteration env s (Some b, True)) = Inr () \<and>
          requests_of (new_events (snd (check_peers env ?s2)) ?s') =
            map (\<lambda>node. POST (Url INBOX_URL [node, FULL_NODE_PORT env]) ?body)
              (get_all_peers env (peers (snd (check_peers env ?s2))))"
    if "fst (check_peers env ?s2) = Inr ()"
    unfolding eq using broadcast_block_inv_posts [OF that] by simp
  have raises: "mine_iteration env s (Some b, True) = (Inl e, snd (check_peers env ?s2)) \<and>
          list_all (discovery_event env) (new_events ?s2 ?s')"
    if "fst (check_peers env ?s2) = Inl e" for e
  proof -
    have r: "mine_iteration env s (Some b, True) = (Inl e, snd (check_peers env ?s2))"
      unfolding eq using that by (rule broadcast_block_inv_raises)
    have "list_all (discovery_event env) (new_events ?s2 (snd (check_peers env ?s2)))"
      by (rule new_events_extends_with) (rule extends_with_check_peers)
    with r show ?thesis by simp
  qed
  have rej: "mine_iteration env s (Some b, False) = (Inr (), emit (Add_Block b False) s)"
    by (simp add: mine_iteration_def)
  have none: "mine_iteration env s (None, ok) = (Inr (), s)"
    by (simp add: mine_iteration_def)
  obtain es where es: "trace (snd (mine env s attempts)) = trace s @ es"
    "order_from False es"
    "\<exists>n \<le> length attempts. commits es = attempted (take n attempts)"
    "fst (mine env s attempts) = Inr () \<longrightarrow> commits es = attempted attempts"
    using mine_trace [of env s attempts] by blast
  have ne: "new_events s (snd (mine env s attempts)) = es"
    using es(1) by simp
  have loop: "commit_order (new_events s (snd (mine env s attempts)))"
    "\<exists>n \<le> length attempts.
      commits (new_events s (snd (mine env s attempts))) = attempted (take n attempts)"
    "fst (mine env s attempts) = Inr () \<longrightarrow>
      commits (new_events s (snd (mine env s attempts))) = attempted attempts"
    unfolding ne using es by (simp_all add: commit_order_def)
  have stop: "mine env s (a # rest) = mine_iteration env s a"
    if "fst (mine_iteration env s a) = Inl e" for e
    using that by (cases "mine_iteration env s a") simp
  have go: "mine env s (a # rest) = mine env (snd (mine_iteration env s a)) rest"
    if "fst (mine_iteration env s a) = Inr ()"
    using that by (cases "mine_iteration env s a") simp
  have nil: "mine env s [] = (Inr (), s)"
    by simp
  show ?thesis
    unfolding Let_def using eq ev adm posts raises rej none loop nil stop go by blast
qed

theorem mine_commit_order_witness:
  "new_events (start [PStr ''a'', PStr ''b''])
      (snd (mine_iteration (node_with 1 8 (remote acceptance)) (start [PStr ''a'', PStr ''b''])
              (Some sample_block, True)))
     = [Add_Block sample_block True,
        Remove_Unconfirmed [tx_of ''t1'', tx_of ''t2''],
        Http (POST (Url INBOX_URL [PStr ''a'', PInt 8080]) (PDict [(''block_hashes'', PStr ''h'')])),
        Http (POST (Url INBOX_URL [PStr ''b'', PInt 8080]) (PDict [(''block_hashes'', PStr ''h'')]))] \<and>
   fst (check_peers (node_with 1 8 (remote acceptance))
          (emit (Remove_Unconfirmed (drop 1 (transactions sample_block)))
             (emit (Add_Block sample_block True) (start [PStr ''a'', PStr ''b''])))) = Inr () \<and>
   fst (mine_iteration (node_with 1 8 (remote acceptance)) (start [PStr ''a'', PStr ''b''])
          (Some sample_block, True)) = Inr () \<and>
   new_events (start [PStr ''a'', PStr ''b''])
      (snd (mine_iteration (node_with 1 8 (remote acceptance)) (start [PStr ''a'', PStr ''b''])
              (Some sample_block, False)))
     = [Add_Block sample_block False] \<and>
   fst (mine (node_with 1 8 (remote acceptance)) (start [PStr ''a'', PStr ''b''])
          [(None, False), (Some sample_block, False), (Some sample_block, True)]) = Inr () \<and>
   commits (new_events (start [PStr ''a'', PStr ''b''])
      (snd (mine (node_with 1 8 (remote acceptance)) (start [PStr ''a'', PStr ''b''])
              [(None, False), (Some sample_block, False), (Some sample_block, True)])))
     = [(sample_block, False), (sample_block, True)] \<and>
   commit_order (new_events (start [PStr ''a'', PStr ''b''])
      (snd (mine (node_with 1 8 (remote acceptance)) (start [PStr ''a'', PStr ''b''])
              [(None, False), (Some sample_block, False), (Some sample_block, True)]))) \<and>
   fst (check_peers (node_with 5 8 listless)
          (emit (Remove_Unconfirmed (drop 1 (transactions sample_block)))
             (emit (Add_Block sample_block True) (start [PStr ''a''])))) = Inl (KeyError ''full_nodes'') \<and>
   fst (mine_iteration (node_with 5 8 listless) (start [PStr ''a''])
          (Some sample_block, True)) = Inl (KeyError ''full_nodes'')"
proof -
  let ?E = "node_with 1 8 (remote acceptance)"
  let ?S = "start [PStr ''a'', PStr ''b'']"
  let ?L = "[(None, False), (Some sample_block, False), (Some sample_block, True)]"
  let ?F = "node_with 5 8 listless"
  let ?T = "start [PStr ''a'']"
  have a: "new_events ?S (snd (mine_iteration ?E ?S (Some sample_block, True)))
     = [Add_Block sample_block True,
        Remove_Unconfirmed [tx_of ''t1'', tx_of ''t2''],
        Http (POST (Url INBOX_URL [PStr ''a'', PInt 8080]) (PDict [(''block_hashes'', PStr ''h'')])),
        Http (POST (Url INBOX_URL [PStr ''b'', PInt 8080]) (PDict [(''block_hashes'', PStr ''h'')]))]"
    by code_simp
  have h1: "fst (check_peers ?E (emit (Remove_Unconfirmed (drop 1 (transactions sample_block)))
             (emit (Add_Block sample_block True) ?S))) = Inr ()"
    by code_simp
  have h2: "fst (mine ?E ?S ?L) = Inr ()"
    by code_simp
  have h3: "fst (check_peers ?F (emit (Remove_Unconfirmed (drop 1 (transactions sample_block)))
             (emit (Add_Block sample_block True) ?T))) = Inl (KeyError ''full_nodes'')"
    by code_simp
  have at: "attempted ?L = [(sample_block, False), (sample_block, True)]"
    by simp
  note t = mine_commit_order [where env = ?E and s = ?S and b = sample_block and ok = False
        and attempts = ?L]
  note u = mine_commit_order [where env = ?F and s = ?T and b = sample_block and ok = False
        and attempts = "[]"]
  from t h1 have ok: "fst (mine_iteration ?E ?S (Some sample_block, True)) = Inr ()"
    unfolding Let_def by blast
  from t have r: "mine_iteration ?E ?S (Some sample_block, False)
       = (Inr (), emit (Add_Block sample_block False) ?S)"
    unfolding Let_def by blast
  from t have c: "commit_order (new_events ?S (snd (mine ?E ?S ?L)))"
    unfolding Let_def by blast
  from t h2 have m: "commits (new_events ?S (snd (mine ?E ?S ?L))) = attempted ?L"
    unfolding Let_def by blast
  from u h3 have x: "mine_iteration ?F ?T (Some sample_block, True)
       = (Inl (KeyError ''full_nodes''),
          snd (check_peers ?F (emit (Remove_Unconfirmed (drop 1 (transactions sample_block)))
             (emit (Add_Block sample_block True) ?T))))"
    unfolding Let_def by blast
  have r': "new_events ?S (snd (mine_iteration ?E ?S (Some sample_block, False)))
     = [Add_Block sample_block False]"
    by (simp add: r)
  have x': "fst (mine_iteration ?F ?T (Some sample_block, True)) = Inl (KeyError ''full_nodes'')"
    by (simp add: x)
  from a h1 ok r' h2 m at c h3 x' show ?thesis by simp
qed

end
